theory Spec2Isabelle
  imports Complex_Main "HOL-Library.Sublist" "HOL-Library.List_Lexorder"
begin

section \<open>Text and tables\<close>

text \<open>
  A Python \<open>str\<close> is a sequence of Unicode code points. A code point is a natural
  number here, so that one element of a text is one character for \<open>LIKE\<close> and for
  Python's string comparison, whatever its UTF-8 length. Texts are taken to hold Unicode
  scalar values (what a form field delivers and what can be bound to a statement).
\<close>

type_synonym ustring = "nat list"

definition ustr :: "string \<Rightarrow> ustring" where
  "ustr s = map of_char s"

text \<open>
  A \<open>pandas.DataFrame\<close> as the program uses it: the column labels, and the rows of
  cell values in positional order (\<open>df.columns\<close>, \<open>df.values\<close>). The cell type is
  left open.
\<close>

record 'c dataframe =
  df_columns :: "ustring list"
  df_values :: "'c list list"

definition len :: "'c dataframe \<Rightarrow> nat" where
  "len df = length (df_values df)"

text \<open>\<open>df.iloc[start:stop]\<close> for the non-negative bounds the program passes.\<close>

definition iloc :: "'c dataframe \<Rightarrow> nat \<Rightarrow> nat \<Rightarrow> 'c dataframe" where
  "iloc df start stop = df\<lparr>df_values := take (stop - start) (drop start (df_values df))\<rparr>"

text \<open>
  In a data frame every row has one cell per column. The record type does not enforce
  it, so the statements about whole frames assume it.
\<close>

definition is_frame :: "'c dataframe \<Rightarrow> bool" where
  "is_frame df \<longleftrightarrow> list_all (\<lambda>row. length row = length (df_columns df)) (df_values df)"

text \<open>The exceptions that reach the caller of a helper.\<close>

datatype error =
    DatabaseFull            \<comment> \<open>\<open>sqlite3.OperationalError\<close>: database or disk is full\<close>
  | LikePatternTooComplex   \<comment> \<open>\<open>sqlite3.OperationalError\<close>: LIKE or GLOB pattern too complex\<close>
  | OverflowError           \<comment> \<open>Python int too large to convert to SQLite INTEGER\<close>
  | IndexError              \<comment> \<open>index out of range: \<open>.iloc[0]\<close> or \<open>cellText[0]\<close> on nothing\<close>
  | ZeroDivisionError       \<comment> \<open>division by a column count of zero\<close>

subsection \<open>Column presentation: \<open>rename_columns\<close>\<close>

definition rename_map :: "(ustring \<times> ustring) list" where
  "rename_map =
    [(ustr ''sno'', ustr ''S.No''),
     (ustr ''date_of_intervention'', ustr ''Date Of Intervention''),
     (ustr ''yard_location'', ustr ''Yard Location''),
     (ustr ''batchno'', ustr ''Batch No.''),
     (ustr ''hold_no'', ustr ''Hold No.''),
     (ustr ''material'', ustr ''Material''),
     (ustr ''lots_id'', ustr ''Lots ID''),
     (ustr ''sgs_reference_id'', ustr ''SGS Reference ID''),
     (ustr ''planned_qty'', ustr ''Planned Qty (Tons)''),
     (ustr ''loaded_qty'', ustr ''Loaded Qty (Tons)''),
     (ustr ''balance_qty'', ustr ''Balance Qty (Tons)''),
     (ustr ''dry_colour'', ustr ''Dry Colour''),
     (ustr ''wet_colour'', ustr ''Wet Colour''),
     (ustr ''loi'', ustr ''LOI''),
     (ustr ''mgo'', ustr ''MgO''),
     (ustr ''sio2'', ustr ''SiO'' @ [8322]),
     (ustr ''asbestos'', ustr ''Asbestos''),
     (ustr ''truck_no'', ustr ''Truck No.''),
     (ustr ''remarks'', ustr ''Remarks''),
     (ustr ''vessel_name'', ustr ''Vessel Name''),
     (ustr ''sgs_report_id'', ustr ''SGS Report ID'')]"

text \<open>
  \<open>df.rename(columns=rename_map)\<close>: a label that is a key of the dictionary is replaced
  by its value, any other label is kept; the data is not touched.
\<close>

definition rename_label :: "ustring \<Rightarrow> ustring" where
  "rename_label c = (case map_of rename_map c of Some l \<Rightarrow> l | None \<Rightarrow> c)"

definition rename_columns :: "'c dataframe \<Rightarrow> 'c dataframe" where
  "rename_columns df = df\<lparr>df_columns := map rename_label (df_columns df)\<rparr>"

text \<open>The header of \<open>SELECT * FROM products\<close>, in the order of the \<open>CREATE TABLE\<close>.\<close>

definition products_columns :: "ustring list" where
  "products_columns = ustr ''id'' # map fst rename_map"

subsection \<open>Export: \<open>df_to_pdf_bytes\<close>\<close>

text \<open>
  One page of the document is one figure, drawn by \<open>ax.table(cellText=sub_df.values,
  colLabels=sub_df.columns, ...)\<close> and saved into the \<open>PdfPages\<close> object. A figure is
  modelled by the labels and cell rows of its table; fonts, scaling and the PDF encoding
  are outside the model.

  matplotlib's \<open>table\<close> starts with \<open>rows = len(cellText)\<close> and
  \<open>cols = len(cellText[0])\<close>, and sets the column widths to \<open>1.0 / cols\<close>. So it
  raises \<open>IndexError\<close> when there is no data row and \<open>ZeroDivisionError\<close> when the rows
  have no cells; otherwise the table is drawn.
\<close>

record 'c figure =
  colLabels :: "ustring list"
  cellText :: "'c list list"

definition ax_table :: "'c list list \<Rightarrow> ustring list \<Rightarrow> error + 'c figure" where
  "ax_table cell_text col_labels =
     (case cell_text of
        [] \<Rightarrow> Inl IndexError
      | row # _ \<Rightarrow>
          if length row = 0 then Inl ZeroDivisionError
          else Inr \<lparr>colLabels = col_labels, cellText = cell_text\<rparr>)"

definition max_rows_per_page :: nat where
  "max_rows_per_page = 25"

text \<open>
  The loop \<open>for page in range(num_pages)\<close>, with the pages saved so far. An exception
  raised while a page is drawn leaves the function: no document is returned.
\<close>

fun savefig_pages :: "'c dataframe \<Rightarrow> nat list \<Rightarrow> 'c figure list \<Rightarrow> error + 'c figure list" where
  "savefig_pages df [] pdf_pages = Inr pdf_pages"
| "savefig_pages df (page # pages) pdf_pages =
     (let start = page * max_rows_per_page;
          stop = start + max_rows_per_page;
          sub_df = iloc df start stop
      in case ax_table (df_values sub_df) (df_columns sub_df) of
           Inl e \<Rightarrow> Inl e
         | Inr fig \<Rightarrow> savefig_pages df pages (pdf_pages @ [fig]))"

definition df_to_pdf_bytes :: "'c dataframe \<Rightarrow> error + 'c figure list" where
  "df_to_pdf_bytes df =
     (let total_rows = len df;
          num_pages = total_rows div max_rows_per_page + 1
      in savefig_pages df [0..<num_pages] [])"

text \<open>
  Example tables: fifty and twenty-six one-cell rows, and two rows under the
  \<open>products\<close> header.
\<close>

definition df50 :: "nat dataframe" where
  "df50 = \<lparr>df_columns = [ustr ''sno''], df_values = map (\<lambda>i. [i]) [0..<50]\<rparr>"

definition df26 :: "nat dataframe" where
  "df26 = \<lparr>df_columns = [ustr ''sno''], df_values = map (\<lambda>i. [i]) [0..<26]\<rparr>"

definition df_ids :: "nat dataframe" where
  "df_ids = \<lparr>df_columns = products_columns, df_values = [replicate 22 7, replicate 22 8]\<rparr>"

section \<open>The record store\<close>

text \<open>
  The 21 data columns of \<open>products\<close>, as the tuple \<open>data\<close> that \<open>add_record\<close> and
  \<open>update_record\<close> bind position by position (the column lists of the \<open>INSERT\<close> and of
  the \<open>UPDATE\<close> are in the order of the \<open>CREATE TABLE\<close>, and so is the tuple built by
  the forms, where the date is already \<open>str(date_of_intervention)\<close>). A \<open>TEXT\<close> field
  is a text or \<open>NULL\<close> (\<open>None\<close>). The type \<open>'f\<close> of the six \<open>REAL\<close> fields is a
  parameter: a Python float in the tuple that is bound, a float or \<open>NULL\<close> in a stored
  row.
\<close>

record 'f fields =
  sno :: "ustring option"
  date_of_intervention :: "ustring option"
  yard_location :: "ustring option"
  batchno :: "ustring option"
  hold_no :: "ustring option"
  material :: "ustring option"
  lots_id :: "ustring option"
  sgs_reference_id :: "ustring option"
  planned_qty :: 'f
  loaded_qty :: 'f
  balance_qty :: 'f
  dry_colour :: "ustring option"
  wet_colour :: "ustring option"
  loi :: 'f
  mgo :: 'f
  sio2 :: 'f
  asbestos :: "ustring option"
  truck_no :: "ustring option"
  remarks :: "ustring option"
  vessel_name :: "ustring option"
  sgs_report_id :: "ustring option"

text \<open>
  A Python float: not-a-number, negative zero, an infinity, or \<open>Float r\<close> for any other
  value \<open>r\<close> (so \<open>Float 0\<close> is \<open>0.0\<close>).
\<close>

datatype pyfloat = NaN | NegZero | PosInf | NegInf | Float real

text \<open>
  What a \<open>REAL\<close> column holds once a float has been bound and stored: SQLite stores
  NaN as \<open>NULL\<close>, and it keeps a float with an integral value as an integer, which
  turns \<open>-0.0\<close> into \<open>0.0\<close>; every other float is stored as it is.
\<close>

definition real_affinity :: "pyfloat \<Rightarrow> pyfloat option" where
  "real_affinity x = (case x of NaN \<Rightarrow> None | NegZero \<Rightarrow> Some (Float 0) | _ \<Rightarrow> Some x)"

definition map_fields :: "('a \<Rightarrow> 'b) \<Rightarrow> 'a fields \<Rightarrow> 'b fields" where
  "map_fields f d =
     \<lparr>sno = sno d, date_of_intervention = date_of_intervention d,
      yard_location = yard_location d, batchno = batchno d, hold_no = hold_no d,
      material = material d, lots_id = lots_id d, sgs_reference_id = sgs_reference_id d,
      planned_qty = f (planned_qty d), loaded_qty = f (loaded_qty d),
      balance_qty = f (balance_qty d),
      dry_colour = dry_colour d, wet_colour = wet_colour d,
      loi = f (loi d), mgo = f (mgo d), sio2 = f (sio2 d),
      asbestos = asbestos d, truck_no = truck_no d, remarks = remarks d,
      vessel_name = vessel_name d, sgs_report_id = sgs_report_id d\<rparr>"

text \<open>
  The column values of the row that \<open>INSERT\<close> and \<open>UPDATE\<close> write for the tuple
  \<open>data\<close>: the texts as bound, the floats as the \<open>REAL\<close> columns store them. For
  comparison, \<open>as_given\<close> is the row that would hold every value unchanged.
\<close>

definition stored :: "pyfloat fields \<Rightarrow> pyfloat option fields" where
  "stored d = map_fields real_affinity d"

definition as_given :: "pyfloat fields \<Rightarrow> pyfloat option fields" where
  "as_given d = map_fields Some d"

text \<open>
  A stored row: the key \<open>id INTEGER PRIMARY KEY AUTOINCREMENT\<close> and the data. Queries
  return the column values as SQLite holds them (pandas shows a \<open>NULL\<close> as a missing
  value).
\<close>

record 'f row =
  row_id :: int
  data :: "'f fields"

text \<open>
  The database behind the module-level connection: the rows of \<open>products\<close> in key
  order, and the entry of \<open>products\<close> in \<open>sqlite_sequence\<close>, the largest key the table
  has ever held (0 before the first insert). Every helper commits, so a state is what
  the file holds between two calls.
\<close>

record 'f db =
  products :: "'f row list"
  seq :: int

definition init_db :: "'f db" where
  "init_db = \<lparr>products = [], seq = 0\<rparr>"

definition MAX_ROWID :: int where
  "MAX_ROWID = 2 ^ 63 - 1"

text \<open>A Python int can be bound to a statement only if it is a 64-bit signed integer.\<close>

definition is_int64 :: "int \<Rightarrow> bool" where
  "is_int64 i \<longleftrightarrow> - (2 ^ 63) \<le> i \<and> i \<le> MAX_ROWID"

text \<open>The largest key in the table, if there is a row.\<close>

fun last_rowid :: "'f row list \<Rightarrow> int option" where
  "last_rowid [] = None"
| "last_rowid (r # rs) = Some (fold max (map row_id rs) (row_id r))"

text \<open>
  The key of a new row under \<open>AUTOINCREMENT\<close>: one more than the largest key in the
  table (1 for an empty table), and at least one more than the recorded sequence value;
  the insert fails when either has reached the largest 64-bit integer.
\<close>

definition new_rowid :: "'f db \<Rightarrow> error + int" where
  "new_rowid st =
     (case last_rowid (products st) of
        None \<Rightarrow>
          if seq st = MAX_ROWID then Inl DatabaseFull
          else Inr (max 1 (seq st + 1))
      | Some k \<Rightarrow>
          if MAX_ROWID \<le> k \<or> seq st = MAX_ROWID then Inl DatabaseFull
          else Inr (max (k + 1) (seq st + 1)))"

definition add_record ::
  "pyfloat fields \<Rightarrow> pyfloat option db \<Rightarrow> error + pyfloat option db" where
  "add_record d st =
     (case new_rowid st of
        Inl e \<Rightarrow> Inl e
      | Inr v \<Rightarrow>
          Inr \<lparr>products = products st @ [\<lparr>row_id = v, data = stored d\<rparr>], seq = v\<rparr>)"

text \<open>
  \<open>fetch_records(query, params)\<close>: the rows for which the \<open>WHERE\<close> clause is true, in
  table order. A clause evaluates to true, false or \<open>NULL\<close> (\<open>None\<close>), or raises; the
  rows are visited in order and the first error ends the query.
\<close>

type_synonym 'f where_clause = "'f row \<Rightarrow> error + bool option"

fun select_rows :: "'f where_clause \<Rightarrow> 'f row list \<Rightarrow> error + 'f row list" where
  "select_rows w [] = Inr []"
| "select_rows w (r # rs) =
     (case w r of
        Inl e \<Rightarrow> Inl e
      | Inr b \<Rightarrow>
         (case select_rows w rs of
            Inl e \<Rightarrow> Inl e
          | Inr out \<Rightarrow> Inr (if b = Some True then r # out else out)))"

definition fetch_records :: "'f where_clause \<Rightarrow> 'f db \<Rightarrow> error + 'f row list" where
  "fetch_records w st = select_rows w (products st)"

text \<open>The default query \<open>SELECT * FROM products\<close> has no \<open>WHERE\<close> clause.\<close>

definition select_all :: "'f where_clause" where
  "select_all r = Inr (Some True)"

definition update_record ::
  "int \<Rightarrow> pyfloat fields \<Rightarrow> pyfloat option db \<Rightarrow> error + pyfloat option db" where
  "update_record record_id d st =
     (if \<not> is_int64 record_id then Inl OverflowError
      else Inr (st\<lparr>products :=
                  map (\<lambda>r. if row_id r = record_id then r\<lparr>data := stored d\<rparr> else r)
                    (products st)\<rparr>))"

definition delete_record :: "int \<Rightarrow> 'f db \<Rightarrow> error + 'f db" where
  "delete_record record_id st =
     (if \<not> is_int64 record_id then Inl OverflowError
      else Inr (st\<lparr>products := filter (\<lambda>r. row_id r \<noteq> record_id) (products st)\<rparr>))"

text \<open>
  Reading one record back by its identifier, as \<open>show_all_records\<close> does:
  \<open>df = fetch_records()\<close> and then \<open>df[df["id"]==selected_id].iloc[0]\<close>.
\<close>

definition select_record :: "int \<Rightarrow> 'f db \<Rightarrow> error + 'f row" where
  "select_record selected_id st =
     (case fetch_records select_all st of
        Inl e \<Rightarrow> Inl e
      | Inr df \<Rightarrow>
         (case filter (\<lambda>r. row_id r = selected_id) df of
            [] \<Rightarrow> Inl IndexError
          | record # _ \<Rightarrow> Inr record))"

text \<open>
  What the primary key and the sequence table guarantee of every state the program can
  meet: no two rows share a key, keys and sequence value are 64-bit integers, and no key
  exceeds the sequence value.
\<close>

definition wf_db :: "'f db \<Rightarrow> bool" where
  "wf_db st \<longleftrightarrow>
     distinct (map row_id (products st)) \<and>
     list_all (\<lambda>r. is_int64 (row_id r) \<and> row_id r \<le> seq st) (products st) \<and>
     is_int64 (seq st)"

text \<open>
  The calls a session makes on the store. An exception ends the call it is raised in and
  leaves the database as it was; \<open>created\<close> lists the identifiers the successful
  \<open>add_record\<close> calls of a session assign, in order.
\<close>

datatype call =
    Add "pyfloat fields"
  | Update int "pyfloat fields"
  | Delete int

fun perform :: "call \<Rightarrow> pyfloat option db \<Rightarrow> error + pyfloat option db" where
  "perform (Add d) st = add_record d st"
| "perform (Update i d) st = update_record i d st"
| "perform (Delete i) st = delete_record i st"

definition after :: "call \<Rightarrow> pyfloat option db \<Rightarrow> pyfloat option db" where
  "after c st = (case perform c st of Inl e \<Rightarrow> st | Inr st' \<Rightarrow> st')"



text \<open>
  Example data: shipment rows as a query returns them, with real numbers standing for
  the stored floats, and a database holding one of them.
\<close>

definition shipment :: "ustring \<Rightarrow> ustring \<Rightarrow> ustring \<Rightarrow> real \<Rightarrow> real \<Rightarrow> real fields" where
  "shipment b m y p l =
     \<lparr>sno = Some (ustr ''1''), date_of_intervention = Some (ustr ''2025-01-31''),
      yard_location = Some y, batchno = Some b, hold_no = Some (ustr ''H1''),
      material = Some m, lots_id = Some [], sgs_reference_id = Some [],
      planned_qty = p, loaded_qty = l, balance_qty = p - l,
      dry_colour = Some [], wet_colour = Some [], loi = 0, mgo = 0, sio2 = 0,
      asbestos = Some (ustr ''No''), truck_no = Some [], remarks = Some [],
      vessel_name = Some (ustr ''MV Star''), sgs_report_id = Some []\<rparr>"

definition rec_A :: "real fields" where
  "rec_A = shipment (ustr ''ABC'') (ustr ''X'') (ustr ''Y1'') 20 10"

definition rec_B :: "real fields" where
  "rec_B = shipment (ustr ''b-2'') (ustr ''X'') (ustr ''Y2'') 8 5"

definition rec_C :: "real fields" where
  "rec_C = shipment (ustr ''abc'') (ustr ''Y'') (ustr ''Y1'') 4 3"

definition db1 :: "real db" where
  "db1 = \<lparr>products = [\<lparr>row_id = 1, data = rec_A\<rparr>], seq = 1\<rparr>"

text \<open>
  The same shipments as tuples of Python values, a tuple with the floats \<open>-0.0\<close> and
  NaN, and the databases that hold the first, and the first two, of the shipments.
\<close>

definition form_A :: "pyfloat fields" where
  "form_A = map_fields Float rec_A"

definition form_B :: "pyfloat fields" where
  "form_B = map_fields Float rec_B"

definition form_C :: "pyfloat fields" where
  "form_C = map_fields Float rec_C"

definition form_nan :: "pyfloat fields" where
  "form_nan = form_A\<lparr>planned_qty := NegZero, loaded_qty := NaN\<rparr>"

definition store1 :: "pyfloat option db" where
  "store1 = \<lparr>products = [\<lparr>row_id = 1, data = stored form_A\<rparr>], seq = 1\<rparr>"

definition store2 :: "pyfloat option db" where
  "store2 = \<lparr>products = [\<lparr>row_id = 1, data = stored form_A\<rparr>,
                          \<lparr>row_id = 2, data = stored form_B\<rparr>], seq = 2\<rparr>"

text \<open>
  More example data: a record with no batch number and no vessel name, a record whose
  batch number has an embedded NUL character, a record whose batch number is the single
  character U+FFFF, and a database of three shipments.
\<close>

definition rec_N :: "real fields" where
  "rec_N = rec_B\<lparr>batchno := None, vessel_name := None\<rparr>"

definition db_null :: "real db" where
  "db_null = \<lparr>products = [\<lparr>row_id = 1, data = rec_N\<rparr>], seq = 1\<rparr>"

definition rec_Z :: "real fields" where
  "rec_Z = rec_B\<lparr>batchno := Some [97, 98, 0, 99, 100]\<rparr>"

definition db_nul :: "real db" where
  "db_nul = \<lparr>products = [\<lparr>row_id = 1, data = rec_Z\<rparr>], seq = 1\<rparr>"

definition rec_F :: "real fields" where
  "rec_F = rec_B\<lparr>batchno := Some [65535]\<rparr>"

definition db_ffff :: "real db" where
  "db_ffff = \<lparr>products = [\<lparr>row_id = 1, data = rec_F\<rparr>], seq = 1\<rparr>"

definition db3 :: "real db" where
  "db3 = \<lparr>products = [\<lparr>row_id = 1, data = rec_A\<rparr>, \<lparr>row_id = 2, data = rec_B\<rparr>,
                       \<lparr>row_id = 3, data = rec_C\<rparr>], seq = 3\<rparr>"

subsection \<open>Keyword search\<close>

text \<open>
  \<open>LIKE\<close> as SQLite's built-in function evaluates it (no \<open>ESCAPE\<close>, default
  settings): \<open>%\<close> in the pattern matches any sequence of characters, \<open>_\<close> any one
  character, and any other character matches itself, or its other letter case when both
  characters are ASCII.

  The characters of pattern and value are read from their UTF-8 bytes by SQLite's reader,
  which delivers U+FFFD for the code points U+FFFE and U+FFFF (and for a surrogate) and
  every other code point as it is; the comparison is on the characters as read.
\<close>

definition sqlite3Utf8Read :: "nat \<Rightarrow> nat" where
  "sqlite3Utf8Read c =
     (if (55296 \<le> c \<and> c \<le> 57343) \<or> c = 65534 \<or> c = 65535 then 65533 else c)"

definition percent :: nat where
  "percent = 37"

definition underscore :: nat where
  "underscore = 95"

definition tolower :: "nat \<Rightarrow> nat" where
  "tolower c = (if 65 \<le> c \<and> c \<le> 90 then c + 32 else c)"

fun patternCompare :: "ustring \<Rightarrow> ustring \<Rightarrow> bool" where
  "patternCompare [] [] = True"
| "patternCompare [] (c2 # s) = False"
| "patternCompare (c # p) [] = (sqlite3Utf8Read c = percent \<and> patternCompare p [])"
| "patternCompare (c # p) (c2 # s) =
     (if sqlite3Utf8Read c = percent
      then patternCompare p (c2 # s) \<or> patternCompare (c # p) s
      else (sqlite3Utf8Read c = sqlite3Utf8Read c2 \<or>
            (tolower (sqlite3Utf8Read c) = tolower (sqlite3Utf8Read c2) \<and>
             sqlite3Utf8Read c < 128 \<and> sqlite3Utf8Read c2 < 128) \<or>
            sqlite3Utf8Read c = underscore)
           \<and> patternCompare p s)"

text \<open>What a character counts as in a comparison: read, then folded to lower case.\<close>

definition like_fold :: "nat \<Rightarrow> nat" where
  "like_fold c = tolower (sqlite3Utf8Read c)"

text \<open>
  The function reads pattern and value as C strings, so each of them ends at its first
  NUL character. Before that it rejects a pattern of more than 50000 bytes
  (\<open>SQLITE_MAX_LIKE_PATTERN_LENGTH\<close>), counted in UTF-8. A \<open>NULL\<close> value gives \<open>NULL\<close>.
\<close>

definition cstr :: "ustring \<Rightarrow> ustring" where
  "cstr s = takeWhile (\<lambda>c. c \<noteq> 0) s"

definition utf8_len :: "nat \<Rightarrow> nat" where
  "utf8_len c = (if c < 128 then 1 else if c < 2048 then 2 else if c < 65536 then 3 else 4)"

definition value_bytes :: "ustring \<Rightarrow> nat" where
  "value_bytes s = sum_list (map utf8_len s)"

definition SQLITE_MAX_LIKE_PATTERN_LENGTH :: nat where
  "SQLITE_MAX_LIKE_PATTERN_LENGTH = 50000"

definition likeFunc :: "ustring \<Rightarrow> ustring option \<Rightarrow> error + bool option" where
  "likeFunc zB a =
     (if SQLITE_MAX_LIKE_PATTERN_LENGTH < value_bytes zB then Inl LikePatternTooComplex
      else Inr (case a of
                  None \<Rightarrow> None
                | Some zA \<Rightarrow> Some (patternCompare (cstr zB) (cstr zA))))"

text \<open>
  Whether \<open>f LIKE pat\<close> is true, for a pattern within the length limit: false for a
  \<open>NULL\<close> field, the match of the two C strings otherwise.
\<close>

definition like_true :: "ustring \<Rightarrow> ustring option \<Rightarrow> bool" where
  "like_true pat f = (case f of None \<Rightarrow> False | Some s \<Rightarrow> patternCompare (cstr pat) (cstr s))"

text \<open>
  \<open>OR\<close> in three-valued logic, the left operand first: true if an operand is true,
  else \<open>NULL\<close> if one is \<open>NULL\<close>, else false. The right operand is not evaluated when
  the left one is true.
\<close>

definition sql_or :: "error + bool option \<Rightarrow> error + bool option \<Rightarrow> error + bool option" where
  "sql_or a b =
     (case a of
        Inl e \<Rightarrow> Inl e
      | Inr x \<Rightarrow>
          if x = Some True then Inr (Some True)
          else (case b of
                  Inl e \<Rightarrow> Inl e
                | Inr y \<Rightarrow>
                    Inr (if y = Some True then Some True
                         else if x = None \<or> y = None then None
                         else Some False)))"

text \<open>
  The query of \<open>show_search_filter\<close>:
  \<open>WHERE batchno LIKE ? OR material LIKE ? OR vessel_name LIKE ?\<close> with the three
  parameters \<open>f"%{keyword}%"\<close>; the function below is the data frame it fetches.
\<close>

definition search_query :: "ustring \<Rightarrow> 'f where_clause" where
  "search_query keyword r =
     (let pat = percent # keyword @ [percent]
      in sql_or (sql_or (likeFunc pat (batchno (data r))) (likeFunc pat (material (data r))))
                (likeFunc pat (vessel_name (data r))))"

definition show_search_filter :: "ustring \<Rightarrow> 'f db \<Rightarrow> error + 'f row list" where
  "show_search_filter keyword st = fetch_records (search_query keyword) st"

text \<open>
  The search as the specification words it, for comparison: the records of \<open>list()\<close>
  whose batch number, material or vessel name contains the keyword as a (case-sensitive)
  substring; and \<open>list()\<close> restricted to the rows whose three searched fields are
  non-null.
\<close>

definition contains_keyword :: "ustring \<Rightarrow> ustring option \<Rightarrow> bool" where
  "contains_keyword kw f = (case f of None \<Rightarrow> False | Some s \<Rightarrow> sublist kw s)"

definition search_spec :: "ustring \<Rightarrow> 'f db \<Rightarrow> 'f row list" where
  "search_spec kw st =
     filter (\<lambda>r. contains_keyword kw (batchno (data r)) \<or>
                 contains_keyword kw (material (data r)) \<or>
                 contains_keyword kw (vessel_name (data r))) (products st)"

definition searched_fields_non_null :: "'f db \<Rightarrow> 'f row list" where
  "searched_fields_non_null st =
     filter (\<lambda>r. batchno (data r) \<noteq> None \<and> material (data r) \<noteq> None \<and>
                 vessel_name (data r) \<noteq> None) (products st)"

subsection \<open>Reports\<close>

text \<open>
  \<open>df.groupby(key)[measure].sum()\<close>: one entry per distinct key value, in sorted key
  order; rows whose key is missing are dropped. The summation of a group's floats is
  pandas' and is the parameter \<open>summ\<close>, applied to the group's values in row order.
\<close>

definition groupby_sum ::
  "('f list \<Rightarrow> 'f) \<Rightarrow> ('f row \<Rightarrow> ustring option) \<Rightarrow> ('f row \<Rightarrow> 'f) \<Rightarrow> 'f row list
     \<Rightarrow> (ustring \<times> 'f) list" where
  "groupby_sum summ key col df =
     map (\<lambda>g. (g, summ (map col (filter (\<lambda>r. key r = Some g) df))))
       (sort (remdups (List.map_filter key df)))"

datatype report_type = Material_vs_Loaded_Qty | Yard_vs_Planned_Qty

text \<open>
  \<open>show_reports\<close> up to \<open>chart_data\<close>; \<open>None\<close> stands for the branch that reports that
  there is no data.
\<close>

definition show_reports ::
  "('f list \<Rightarrow> 'f) \<Rightarrow> report_type \<Rightarrow> 'f db \<Rightarrow> error + (ustring \<times> 'f) list option" where
  "show_reports summ rt st =
     (case fetch_records select_all st of
        Inl e \<Rightarrow> Inl e
      | Inr df \<Rightarrow>
          if df \<noteq> [] then
            Inr (Some (if rt = Material_vs_Loaded_Qty
                       then groupby_sum summ (\<lambda>r. material (data r)) (\<lambda>r. loaded_qty (data r)) df
                       else groupby_sum summ (\<lambda>r. yard_location (data r))
                              (\<lambda>r. planned_qty (data r)) df))
          else Inr None)"

section \<open>Properties of the export renderer\<close>

text \<open>The page that the loop draws for index \<open>page\<close>.\<close>

lemma page_rows:
  "df_values (iloc df (page * max_rows_per_page) (page * max_rows_per_page + max_rows_per_page))
     = take 25 (drop (page * 25) (df_values df))"
  "df_columns (iloc df (page * max_rows_per_page) (page * max_rows_per_page + max_rows_per_page))
     = df_columns df"
  by (simp_all add: iloc_def max_rows_per_page_def)

lemma ax_table_drawn:
  assumes "is_frame df" and "df_columns df \<noteq> []" and "page * 25 < len df"
  shows "ax_table (take 25 (drop (page * 25) (df_values df))) (df_columns df) =
           Inr \<lparr>colLabels = df_columns df,
                cellText = take 25 (drop (page * 25) (df_values df))\<rparr>"
proof -
  let ?rows = "take 25 (drop (page * 25) (df_values df))"
  from assms(3) have "?rows \<noteq> []" by (simp add: len_def)
  then obtain row rest where rows: "?rows = row # rest" by (cases ?rows) auto
  then have "row \<in> set ?rows" by simp
  then have "row \<in> set (df_values df)"
    by (meson in_set_dropD in_set_takeD)
  with assms(1,2) have "length row \<noteq> 0"
    by (auto simp: is_frame_def list_all_iff)
  with rows show ?thesis
    by (simp add: ax_table_def)
qed

lemma ax_table_empty: "ax_table [] labels = Inl IndexError"
  by (simp add: ax_table_def)

lemma savefig_pages_drawn:
  assumes "is_frame df" and "df_columns df \<noteq> []" and "\<forall>page \<in> set ps. page * 25 < len df"
  shows "savefig_pages df ps acc =
           Inr (acc @ map (\<lambda>page. \<lparr>colLabels = df_columns df,
                                    cellText = take 25 (drop (page * 25) (df_values df))\<rparr>) ps)"
  using assms(3)
proof (induction ps arbitrary: acc)
  case Nil
  show ?case by simp
next
  case (Cons page ps)
  then have "page * 25 < len df" by simp
  note t = ax_table_drawn [OF assms(1,2) this]
  from Cons show ?case
    by (simp add: Let_def page_rows t)
qed

lemma savefig_pages_append:
  "savefig_pages df (ps @ qs) acc =
     (case savefig_pages df ps acc of Inl e \<Rightarrow> Inl e | Inr acc' \<Rightarrow> savefig_pages df qs acc')"
  by (induction ps arbitrary: acc) (simp_all add: Let_def split: sum.splits)

lemma savefig_pages_last_empty:
  assumes "len df \<le> page * 25"
  shows "savefig_pages df [page] acc = Inl IndexError"
  using assms by (simp add: Let_def page_rows len_def ax_table_empty)

lemma page_bound:
  assumes "len df mod 25 \<noteq> 0" and "page \<in> set [0..<len df div 25 + 1]"
  shows "page * 25 < len df"
proof -
  from assms(2) have "page \<le> len df div 25" by auto
  then have "page * 25 \<le> len df div 25 * 25" by simp
  also have "\<dots> < len df" using assms(1) by presburger
  finally show ?thesis .
qed

lemma df_to_pdf_bytes_pages:
  assumes "is_frame df" and "df_columns df \<noteq> []" and "len df mod 25 \<noteq> 0"
  shows "df_to_pdf_bytes df =
           Inr (map (\<lambda>page. \<lparr>colLabels = df_columns df,
                              cellText = take 25 (drop (page * 25) (df_values df))\<rparr>)
                  [0..<len df div 25 + 1])"
proof -
  have "\<forall>page \<in> set [0..<len df div 25 + 1]. page * 25 < len df"
    using page_bound [OF assms(3)] by blast
  from savefig_pages_drawn [OF assms(1,2) this, of "[]"] show ?thesis
    by (simp add: df_to_pdf_bytes_def Let_def max_rows_per_page_def)
qed

lemma df_to_pdf_bytes_raises:
  assumes "is_frame df" and "df_columns df \<noteq> []" and "len df mod 25 = 0"
  shows "df_to_pdf_bytes df = Inl IndexError"
proof -
  let ?n = "len df div 25"
  have n: "?n * 25 = len df" using assms(3) by presburger
  have "\<forall>page \<in> set [0..<?n]. page * 25 < len df"
  proof
    fix page assume "page \<in> set [0..<?n]"
    then have "page * 25 < ?n * 25" by simp
    with n show "page * 25 < len df" by simp
  qed
  from savefig_pages_drawn [OF assms(1,2) this, of "[]"]
  obtain acc where a: "savefig_pages df [0..<?n] [] = Inr acc" by simp
  have "savefig_pages df [0..<?n + 1] [] = savefig_pages df ([0..<?n] @ [?n]) []"
    by simp
  also have "\<dots> = savefig_pages df [?n] acc"
    by (simp only: savefig_pages_append a sum.case)
  also have "\<dots> = Inl IndexError"
    by (rule savefig_pages_last_empty) (simp add: n)
  finally show ?thesis
    by (simp add: df_to_pdf_bytes_def Let_def max_rows_per_page_def)
qed

lemma concat_chunks:
  "concat (map (\<lambda>k. take m (drop (k * m) xs)) [0..<n]) = take (n * m) xs"
proof (induction n)
  case 0
  show ?case by simp
next
  case (Suc n)
  have "take (n * m) xs @ take m (drop (n * m) xs) = take (n * m + m) xs"
    by (simp add: take_add)
  with Suc show ?case by (simp add: add.commute)
qed

lemma frame_df50: "is_frame df50" "df_columns df50 \<noteq> []" "len df50 = 50"
  by (simp_all add: is_frame_def df50_def len_def list_all_iff)

lemma frame_df26: "is_frame df26" "df_columns df26 \<noteq> []" "len df26 = 26"
  by (simp_all add: is_frame_def df26_def len_def list_all_iff)

text \<open>
  C2. The loop runs \<open>n div 25 + 1\<close> times. For a table of \<open>n\<close> rows with \<open>n\<close> not a
  multiple of 25, the document has exactly \<open>n div 25 + 1\<close> pages and none of them is
  empty. When \<open>n\<close> is a multiple of 25 (0 included) the last page drawn has no data row,
  the drawing raises \<open>IndexError\<close> and there is no document: the trailing empty page,
  and the single empty page of an empty record set, are never produced.
\<close>

theorem df_to_pdf_bytes_page_count:
  assumes "is_frame df" and "df_columns df \<noteq> []"
  shows "(len df mod 25 \<noteq> 0 \<longrightarrow>
            (\<exists>pages. df_to_pdf_bytes df = Inr pages \<and> length pages = len df div 25 + 1 \<and>
                     list_all (\<lambda>p. cellText p \<noteq> []) pages)) \<and>
         (len df mod 25 = 0 \<longrightarrow> df_to_pdf_bytes df = Inl IndexError)"
proof (intro conjI impI)
  assume m: "len df mod 25 \<noteq> 0"
  have "cellText p \<noteq> []"
    if "p \<in> set (map (\<lambda>page. \<lparr>colLabels = df_columns df,
          cellText = take 25 (drop (page * 25) (df_values df))\<rparr>) [0..<len df div 25 + 1])"
    for p
  proof -
    from that obtain page where page: "page \<in> set [0..<len df div 25 + 1]"
      and p: "p = \<lparr>colLabels = df_columns df,
          cellText = take 25 (drop (page * 25) (df_values df))\<rparr>"
      unfolding set_map by blast
    from page have "page * 25 < len df" by (rule page_bound [OF m])
    then show ?thesis by (simp add: p len_def)
  qed
  then have "list_all (\<lambda>p. cellText p \<noteq> [])
      (map (\<lambda>page. \<lparr>colLabels = df_columns df,
                     cellText = take 25 (drop (page * 25) (df_values df))\<rparr>)
         [0..<len df div 25 + 1])"
    unfolding list_all_iff by blast
  then show "\<exists>pages. df_to_pdf_bytes df = Inr pages \<and> length pages = len df div 25 + 1 \<and>
                     list_all (\<lambda>p. cellText p \<noteq> []) pages"
    by (simp add: df_to_pdf_bytes_pages [OF assms m])
next
  assume "len df mod 25 = 0"
  then show "df_to_pdf_bytes df = Inl IndexError"
    by (rule df_to_pdf_bytes_raises [OF assms])
qed

text \<open>Fifty rows: no document. Twenty-six rows: two pages.\<close>

theorem df_to_pdf_bytes_page_count_witness:
  "is_frame df50 \<and> len df50 = 50 \<and> df_to_pdf_bytes df50 = Inl IndexError \<and>
   is_frame df26 \<and> len df26 = 26 \<and>
   (\<exists>pages. df_to_pdf_bytes df26 = Inr pages \<and> length pages = 2)"
  using df_to_pdf_bytes_page_count [OF frame_df50(1,2)]
    df_to_pdf_bytes_page_count [OF frame_df26(1,2)]
  by (auto simp: frame_df50 frame_df26)

text \<open>
  C7. For a table whose number of rows is not a multiple of 25, the pages partition the
  rows in order: page \<open>k\<close> holds rows \<open>25k\<close> to \<open>25k + 24\<close> of the input (as many of
  them as exist), at most 25 rows, under the input's column labels; row \<open>i\<close> is the entry
  \<open>i mod 25\<close> of page \<open>i div 25\<close>; and the data rows of all pages, concatenated, are the
  input rows in their original order. When the number of rows is a multiple of 25 there
  are no pages at all: the drawing of the trailing empty page raises \<open>IndexError\<close>.
\<close>

theorem df_to_pdf_bytes_partition:
  assumes "is_frame df" and "df_columns df \<noteq> []"
  shows "(len df mod 25 \<noteq> 0 \<longrightarrow>
           (\<exists>pages. df_to_pdf_bytes df = Inr pages \<and>
              concat (map cellText pages) = df_values df \<and>
              (\<forall>k < length pages.
                 cellText (pages ! k) = take 25 (drop (25 * k) (df_values df)) \<and>
                 length (cellText (pages ! k)) \<le> 25 \<and>
                 colLabels (pages ! k) = df_columns df) \<and>
              (\<forall>i < len df.
                 i div 25 < length pages \<and>
                 cellText (pages ! (i div 25)) ! (i mod 25) = df_values df ! i))) \<and>
         (len df mod 25 = 0 \<longrightarrow> df_to_pdf_bytes df = Inl IndexError)"
proof (intro conjI impI)
  assume m: "len df mod 25 \<noteq> 0"
  define pages where "pages = map (\<lambda>page. \<lparr>colLabels = df_columns df,
      cellText = take 25 (drop (page * 25) (df_values df))\<rparr>) [0..<len df div 25 + 1]"
  have r: "df_to_pdf_bytes df = Inr pages"
    unfolding pages_def by (rule df_to_pdf_bytes_pages [OF assms m])
  have l: "length pages = len df div 25 + 1"
    by (simp add: pages_def)
  have nth: "pages ! k = \<lparr>colLabels = df_columns df,
      cellText = take 25 (drop (k * 25) (df_values df))\<rparr>" if "k < len df div 25 + 1" for k
    unfolding pages_def using that by (simp del: upt_Suc)
  have c: "concat (map cellText pages) = df_values df"
  proof -
    have "len df < (len df div 25 + 1) * 25"
      by presburger
    then have "take ((len df div 25 + 1) * 25) (df_values df) = df_values df"
      by (simp add: len_def)
    moreover have "concat (map cellText pages) =
        concat (map (\<lambda>k. take 25 (drop (k * 25) (df_values df))) [0..<len df div 25 + 1])"
      by (simp add: pages_def comp_def)
    ultimately show ?thesis
      by (simp only: concat_chunks)
  qed
  have p: "\<forall>k < length pages.
      cellText (pages ! k) = take 25 (drop (25 * k) (df_values df)) \<and>
      length (cellText (pages ! k)) \<le> 25 \<and> colLabels (pages ! k) = df_columns df"
    by (simp add: l nth mult.commute)
  have q: "\<forall>i < len df. i div 25 < length pages \<and>
      cellText (pages ! (i div 25)) ! (i mod 25) = df_values df ! i"
  proof (intro allI impI)
    fix i assume i: "i < len df"
    then have k: "i div 25 < len df div 25 + 1"
      by (simp add: div_le_mono less_Suc_eq_le)
    have "i div 25 * 25 + i mod 25 = i" by simp
    moreover have "i mod 25 < 25" by simp
    ultimately have "cellText (pages ! (i div 25)) ! (i mod 25) = df_values df ! i"
      using i by (simp add: nth [OF k] len_def)
    with k show "i div 25 < length pages \<and>
        cellText (pages ! (i div 25)) ! (i mod 25) = df_values df ! i"
      by (simp add: l)
  qed
  from r c p q show "\<exists>pages. df_to_pdf_bytes df = Inr pages \<and>
      concat (map cellText pages) = df_values df \<and>
      (\<forall>k < length pages.
         cellText (pages ! k) = take 25 (drop (25 * k) (df_values df)) \<and>
         length (cellText (pages ! k)) \<le> 25 \<and>
         colLabels (pages ! k) = df_columns df) \<and>
      (\<forall>i < len df.
         i div 25 < length pages \<and>
         cellText (pages ! (i div 25)) ! (i mod 25) = df_values df ! i)"
    by blast
next
  assume "len df mod 25 = 0"
  then show "df_to_pdf_bytes df = Inl IndexError"
    by (rule df_to_pdf_bytes_raises [OF assms])
qed

text \<open>
  Twenty-six rows: the second page is row 25 alone. Fifty rows: no pages, so the rows
  appear nowhere.
\<close>

theorem df_to_pdf_bytes_partition_witness:
  "is_frame df26 \<and> df_columns df26 \<noteq> [] \<and> len df26 mod 25 \<noteq> 0 \<and>
   (\<exists>pages. df_to_pdf_bytes df26 = Inr pages \<and> cellText (pages ! 1) = [[25]] \<and>
            concat (map cellText pages) = map (\<lambda>i. [i]) [0..<26]) \<and>
   is_frame df50 \<and> df_columns df50 \<noteq> [] \<and> len df50 mod 25 = 0 \<and>
   df_to_pdf_bytes df50 = Inl IndexError"
proof -
  have v: "df_values df26 = map (\<lambda>i. [i]) [0..<26]"
    by (simp add: df26_def)
  have t: "take 25 (drop (25 * 1) (df_values df26)) = [[25]]"
    unfolding v by (simp add: drop_map take_map)
  from df_to_pdf_bytes_partition [OF frame_df26(1,2)]
  obtain pages where p: "df_to_pdf_bytes df26 = Inr pages"
    "concat (map cellText pages) = df_values df26"
    "\<forall>k < length pages. cellText (pages ! k) = take 25 (drop (25 * k) (df_values df26))"
    "\<forall>i < len df26. i div 25 < length pages"
    by (auto simp: frame_df26)
  from p(4) [rule_format, of 25] have "1 < length pages"
    by (simp add: frame_df26)
  with p(3) t have "cellText (pages ! 1) = [[25]]" by auto
  with p(1,2) v have "\<exists>pages. df_to_pdf_bytes df26 = Inr pages \<and>
      cellText (pages ! 1) = [[25]] \<and> concat (map cellText pages) = map (\<lambda>i. [i]) [0..<26]"
    by simp
  with df_to_pdf_bytes_partition [OF frame_df50(1,2)] show ?thesis
    by (simp add: frame_df50 frame_df26)
qed

section \<open>Properties of the column presentation mapper\<close>

lemma distinct_rename_keys: "distinct (map fst rename_map)"
  by (simp add: rename_map_def ustr_def)

lemma length_rename_map: "length rename_map = 21"
  by (simp add: rename_map_def)

lemma rename_label_id: "rename_label (ustr ''id'') = ustr ''id''"
  by (simp add: rename_label_def rename_map_def ustr_def)

lemma rename_label_key: "(k, l) \<in> set rename_map \<Longrightarrow> rename_label k = l"
  by (simp add: rename_label_def distinct_rename_keys)

lemma rename_label_other: "c \<notin> fst ` set rename_map \<Longrightarrow> rename_label c = c"
  by (simp add: rename_label_def map_of_eq_None_iff [THEN iffD2])

lemma rename_products_columns:
  "map rename_label products_columns = ustr ''id'' # map snd rename_map"
proof -
  have "map rename_label (map fst rename_map) = map snd rename_map"
    unfolding map_map by (rule map_cong) (auto simp: rename_label_key)
  then show ?thesis
    by (simp add: products_columns_def rename_label_id)
qed

text \<open>
  C10. \<open>rename_columns\<close> changes column labels only: the rows, their order and their
  cell values are the input's, and the number of columns too. Column by column, the label
  becomes the one the fixed map gives it: the map has 21 distinct keys, each replaced by
  its label, and a label that is not a key (such as \<open>id\<close>) is kept as it is, so the
  \<open>products\<close> header becomes \<open>id\<close> followed by the 21 labels.
\<close>

theorem rename_columns_frame:
  "df_values (rename_columns df) = df_values df \<and>
   len (rename_columns df) = len df \<and>
   length (df_columns (rename_columns df)) = length (df_columns df) \<and>
   (\<forall>i < length (df_columns df).
      df_columns (rename_columns df) ! i = rename_label (df_columns df ! i)) \<and>
   length rename_map = 21 \<and> distinct (map fst rename_map) \<and>
   (\<forall>(k, l) \<in> set rename_map. rename_label k = l) \<and>
   (\<forall>c. c \<notin> fst ` set rename_map \<longrightarrow> rename_label c = c) \<and>
   rename_label (ustr ''id'') = ustr ''id'' \<and>
   (df_columns df = products_columns \<longrightarrow>
      df_columns (rename_columns df) = ustr ''id'' # map snd rename_map)"
  using rename_label_key rename_label_other
  by (auto simp add: rename_columns_def len_def length_rename_map distinct_rename_keys
      rename_label_id rename_products_columns)

theorem rename_columns_frame_witness:
  "df_columns df_ids = products_columns \<and> (6::nat) < length (df_columns df_ids) \<and>
   (ustr ''material'', ustr ''Material'') \<in> set rename_map \<and>
   ustr ''id'' \<notin> fst ` set rename_map \<and>
   df_columns df_ids ! 6 = ustr ''material'' \<and>
   df_columns (rename_columns df_ids) ! 6 = ustr ''Material'' \<and>
   df_columns (rename_columns df_ids) ! 0 = ustr ''id'' \<and>
   df_values (rename_columns df_ids) = [replicate 22 7, replicate 22 8]"
proof -
  have a: "df_columns df_ids ! 6 = ustr ''material''" "(6::nat) < length (df_columns df_ids)"
    by (simp_all add: df_ids_def products_columns_def rename_map_def)
  have b: "(ustr ''material'', ustr ''Material'') \<in> set rename_map"
    by (simp add: rename_map_def)
  have c: "ustr ''id'' \<notin> fst ` set rename_map"
    by (simp add: rename_map_def ustr_def)
  have d: "df_columns df_ids = products_columns" "df_values df_ids = [replicate 22 7, replicate 22 8]"
    by (simp_all add: df_ids_def)
  have e: "(ustr ''id'' # map snd rename_map) ! 6 = ustr ''Material''"
    by (simp add: rename_map_def)
  from rename_columns_frame [of df_ids] a b c d e show ?thesis
    by simp
qed

section \<open>Properties of the record store\<close>

lemma select_rows_select_all: "select_rows select_all rs = Inr rs"
  by (induction rs) (simp_all add: select_all_def)

lemma fetch_records_select_all: "fetch_records select_all st = Inr (products st)"
  by (simp add: fetch_records_def select_rows_select_all)

lemma last_rowid_None: "last_rowid rs = None \<longleftrightarrow> rs = []"
  by (cases rs) simp_all

lemma fold_max_init: "a \<le> fold max xs (a::int)"
proof (induction xs arbitrary: a)
  case Nil
  show ?case by simp
next
  case (Cons y ys)
  have "a \<le> max y a" by simp
  also have "max y a \<le> fold max ys (max y a)" by (rule Cons)
  finally show ?case by simp
qed

lemma fold_max_ge: "x \<in> set (a # xs) \<Longrightarrow> x \<le> fold max xs (a::int)"
proof (induction xs arbitrary: a)
  case Nil
  then show ?case by simp
next
  case (Cons y ys)
  then have "x \<le> max y a \<or> x \<in> set ys" by auto
  then show ?case
  proof
    assume "x \<le> max y a"
    also have "max y a \<le> fold max ys (max y a)" by (rule fold_max_init)
    finally show ?thesis by simp
  next
    assume "x \<in> set ys"
    then have "x \<le> fold max ys (max y a)" by (intro Cons.IH) simp
    then show ?thesis by simp
  qed
qed

lemma fold_max_in: "fold max xs (a::int) \<in> set (a # xs)"
proof (induction xs arbitrary: a)
  case Nil
  show ?case by simp
next
  case (Cons y ys)
  from Cons [of "max a y"] show ?case by (auto simp: max_def split: if_splits)
qed

lemma last_rowid_ge:
  assumes "last_rowid rs = Some k" and "r \<in> set rs"
  shows "row_id r \<le> k"
proof (cases rs)
  case Nil
  with assms show ?thesis by simp
next
  case (Cons a as)
  with assms have k: "k = fold max (map row_id as) (row_id a)"
    by simp
  have "row_id r \<in> set (row_id a # map row_id as)"
    using assms(2) Cons by auto
  then show ?thesis
    unfolding k by (rule fold_max_ge)
qed

lemma last_rowid_in:
  assumes "last_rowid rs = Some k"
  shows "k \<in> row_id ` set rs"
proof (cases rs)
  case Nil
  with assms show ?thesis by simp
next
  case (Cons a as)
  with assms have k: "k = fold max (map row_id as) (row_id a)"
    by simp
  have "k \<in> set (row_id a # map row_id as)"
    unfolding k by (rule fold_max_in)
  with Cons show ?thesis by auto
qed

lemma new_rowid_fresh:
  assumes "new_rowid st = Inr v"
  shows "seq st < v" and "r \<in> set (products st) \<Longrightarrow> row_id r < v"
proof -
  show "seq st < v"
    using assms by (auto simp: new_rowid_def split: option.splits if_splits)
  assume r: "r \<in> set (products st)"
  then obtain k where k: "last_rowid (products st) = Some k"
    by (cases "last_rowid (products st)") (auto simp: last_rowid_None)
  with assms have "k < v"
    by (auto simp: new_rowid_def split: if_splits)
  with last_rowid_ge [OF k r] show "row_id r < v" by simp
qed

lemma new_rowid_total:
  assumes "seq st \<noteq> MAX_ROWID" and "list_all (\<lambda>r. row_id r < MAX_ROWID) (products st)"
  shows "\<exists>v. new_rowid st = Inr v"
proof (cases "last_rowid (products st)")
  case None
  with assms show ?thesis by (simp add: new_rowid_def)
next
  case (Some k)
  from last_rowid_in [OF Some] assms(2) have "k < MAX_ROWID"
    by (auto simp: list_all_iff)
  with Some assms show ?thesis by (simp add: new_rowid_def)
qed

lemma map_update_absent:
  "i \<notin> row_id ` set rs \<Longrightarrow> map (\<lambda>r. if row_id r = i then r\<lparr>data := d\<rparr> else r) rs = rs"
  by (induction rs) auto

lemma filter_delete_absent:
  "i \<notin> row_id ` set rs \<Longrightarrow> filter (\<lambda>r. row_id r \<noteq> i) rs = rs"
  by (induction rs) auto

















lemma filter_key_update_absent:
  "i \<notin> row_id ` set rs \<Longrightarrow>
     filter (\<lambda>r. row_id r = i) (map (\<lambda>r. if row_id r = i then r\<lparr>data := d\<rparr> else r) rs) = []"
  by (induction rs) simp_all

lemma filter_key_update:
  assumes "distinct (map row_id rs)" and "i \<in> row_id ` set rs"
  shows "filter (\<lambda>r. row_id r = i) (map (\<lambda>r. if row_id r = i then r\<lparr>data := d\<rparr> else r) rs)
           = [\<lparr>row_id = i, data = d\<rparr>]"
  using assms
proof (induction rs)
  case Nil
  then show ?case by simp
next
  case (Cons a as)
  show ?case
  proof (cases "row_id a = i")
    case True
    with Cons.prems(1) have "i \<notin> row_id ` set as" by auto
    then have rest: "filter (\<lambda>r. row_id r = i)
        (map (\<lambda>r. if row_id r = i then r\<lparr>data := d\<rparr> else r) as) = []"
      by (rule filter_key_update_absent)
    have "a\<lparr>data := d\<rparr> = \<lparr>row_id = row_id a, data = d\<rparr>"
      by (cases a) simp
    with True have "a\<lparr>data := d\<rparr> = \<lparr>row_id = i, data = d\<rparr>"
      by (simp only:)
    with True rest show ?thesis by simp
  next
    case False
    with Cons.prems have "distinct (map row_id as)" and "i \<in> row_id ` set as"
      by auto
    then have "filter (\<lambda>r. row_id r = i)
        (map (\<lambda>r. if row_id r = i then r\<lparr>data := d\<rparr> else r) as) = [\<lparr>row_id = i, data = d\<rparr>]"
      by (rule Cons.IH)
    with False show ?thesis by simp
  qed
qed

lemma new_rowid_init_db: "new_rowid init_db = Inr 1"
  by (simp add: new_rowid_def init_db_def MAX_ROWID_def)

lemma wf_store2: "wf_db store2"
  by (simp add: wf_db_def store2_def is_int64_def MAX_ROWID_def)

lemma map_fields_sel:
  "sno (map_fields f d) = sno d"
  "date_of_intervention (map_fields f d) = date_of_intervention d"
  "yard_location (map_fields f d) = yard_location d"
  "batchno (map_fields f d) = batchno d"
  "hold_no (map_fields f d) = hold_no d"
  "material (map_fields f d) = material d"
  "lots_id (map_fields f d) = lots_id d"
  "sgs_reference_id (map_fields f d) = sgs_reference_id d"
  "planned_qty (map_fields f d) = f (planned_qty d)"
  "loaded_qty (map_fields f d) = f (loaded_qty d)"
  "balance_qty (map_fields f d) = f (balance_qty d)"
  "dry_colour (map_fields f d) = dry_colour d"
  "wet_colour (map_fields f d) = wet_colour d"
  "loi (map_fields f d) = f (loi d)"
  "mgo (map_fields f d) = f (mgo d)"
  "sio2 (map_fields f d) = f (sio2 d)"
  "asbestos (map_fields f d) = asbestos d"
  "truck_no (map_fields f d) = truck_no d"
  "remarks (map_fields f d) = remarks d"
  "vessel_name (map_fields f d) = vessel_name d"
  "sgs_report_id (map_fields f d) = sgs_report_id d"
  by (simp_all add: map_fields_def)

lemma real_affinity_cases:
  "real_affinity x =
     (if x = NaN then None else if x = NegZero then Some (Float 0) else Some x)"
  by (cases x) (simp_all add: real_affinity_def)

lemma stored_exact:
  assumes "list_all (\<lambda>x. x \<noteq> NaN \<and> x \<noteq> NegZero)
             [planned_qty d, loaded_qty d, balance_qty d, loi d, mgo d, sio2 d]"
  shows "stored d = as_given d"
  using assms by (simp add: stored_def as_given_def map_fields_def real_affinity_cases)

lemma form_nan_fields:
  "planned_qty form_nan = NegZero" "loaded_qty form_nan = NaN"
  by (simp_all add: form_nan_def)

lemma stored_form_nan:
  "planned_qty (stored form_nan) = Some (Float 0)" "loaded_qty (stored form_nan) = None"
  "planned_qty (as_given form_nan) = Some NegZero" "loaded_qty (as_given form_nan) = Some NaN"
  by (simp_all add: stored_def as_given_def map_fields_sel form_nan_fields real_affinity_def)

lemma stored_form_nan_differs: "stored form_nan \<noteq> as_given form_nan"
proof
  assume "stored form_nan = as_given form_nan"
  then have "loaded_qty (stored form_nan) = loaded_qty (as_given form_nan)" by simp
  then show False by (simp add: stored_form_nan)
qed

lemma add_record_init_db:
  "add_record d init_db = Inr \<lparr>products = [\<lparr>row_id = 1, data = stored d\<rparr>], seq = 1\<rparr>"
  unfolding add_record_def new_rowid_init_db by (simp add: init_db_def)

lemma select_record_single:
  "select_record i \<lparr>products = [\<lparr>row_id = i, data = x\<rparr>], seq = n\<rparr> = Inr \<lparr>row_id = i, data = x\<rparr>"
  by (simp add: select_record_def fetch_records_select_all)

text \<open>
  C3, as the specification states it, fails on the code: a record inserted with the
  floats \<open>-0.0\<close> and NaN is read back, under its assigned identifier 1, with \<open>0.0\<close>
  and \<open>NULL\<close> in their place.
\<close>

theorem add_record_round_trip_counterexample:
  "add_record form_nan init_db =
     Inr \<lparr>products = [\<lparr>row_id = 1, data = stored form_nan\<rparr>], seq = 1\<rparr> \<and>
   select_record 1 \<lparr>products = [\<lparr>row_id = 1, data = stored form_nan\<rparr>], seq = 1\<rparr> =
     Inr \<lparr>row_id = 1, data = stored form_nan\<rparr> \<and>
   planned_qty form_nan = NegZero \<and> planned_qty (stored form_nan) = Some (Float 0) \<and>
   loaded_qty form_nan = NaN \<and> loaded_qty (stored form_nan) = None \<and>
   stored form_nan \<noteq> as_given form_nan"
  by (simp add: add_record_init_db select_record_single form_nan_fields stored_form_nan
      stored_form_nan_differs)

text \<open>
  C3, amended. An insert succeeds unless the key space is exhausted. When \<open>add_record\<close>
  succeeds, the store appends one row under a key it chooses, a key no row of the table
  has, and reading the record back by that key returns the inserted data as stored:
  each of the 15 text fields exactly as it was given (the date as the string the form
  passed), and each of the six numeric fields as the \<open>REAL\<close> column stores it, which is
  \<open>NULL\<close> for NaN, \<open>0.0\<close> for \<open>-0.0\<close> and the float itself otherwise. So a record
  without NaN and \<open>-0.0\<close> is read back with every field value unchanged.
\<close>

theorem add_record_round_trip:
  "(seq st \<noteq> MAX_ROWID \<and> list_all (\<lambda>r. row_id r < MAX_ROWID) (products st)
      \<longrightarrow> (\<exists>st'. add_record d st = Inr st')) \<and>
   (add_record d st = Inr st' \<longrightarrow>
      (\<exists>i. new_rowid st = Inr i \<and> i \<notin> row_id ` set (products st) \<and>
           products st' = products st @ [\<lparr>row_id = i, data = stored d\<rparr>] \<and>
           select_record i st' = Inr \<lparr>row_id = i, data = stored d\<rparr> \<and>
           data (projr (select_record i st')) = stored d)) \<and>
   map (\<lambda>field. field (stored d))
     [sno, date_of_intervention, yard_location, batchno, hold_no, material, lots_id,
      sgs_reference_id, dry_colour, wet_colour, asbestos, truck_no, remarks, vessel_name,
      sgs_report_id] =
   map (\<lambda>field. field d)
     [sno, date_of_intervention, yard_location, batchno, hold_no, material, lots_id,
      sgs_reference_id, dry_colour, wet_colour, asbestos, truck_no, remarks, vessel_name,
      sgs_report_id] \<and>
   map (\<lambda>field. field (stored d)) [planned_qty, loaded_qty, balance_qty, loi, mgo, sio2] =
   map (\<lambda>field. real_affinity (field d)) [planned_qty, loaded_qty, balance_qty, loi, mgo, sio2] \<and>
   (\<forall>x. real_affinity x =
      (if x = NaN then None else if x = NegZero then Some (Float 0) else Some x)) \<and>
   (list_all (\<lambda>x. x \<noteq> NaN \<and> x \<noteq> NegZero)
      [planned_qty d, loaded_qty d, balance_qty d, loi d, mgo d, sio2 d]
      \<longrightarrow> stored d = as_given d)"
proof (intro conjI impI allI)
  assume "seq st \<noteq> MAX_ROWID \<and> list_all (\<lambda>r. row_id r < MAX_ROWID) (products st)"
  then obtain v where "new_rowid st = Inr v"
    using new_rowid_total by blast
  then show "\<exists>st'. add_record d st = Inr st'"
    by (simp add: add_record_def)
next
  assume a: "add_record d st = Inr st'"
  then obtain i where i: "new_rowid st = Inr i"
    and st': "st' = \<lparr>products = products st @ [\<lparr>row_id = i, data = stored d\<rparr>], seq = i\<rparr>"
    by (auto simp: add_record_def split: sum.splits)
  have fresh: "\<And>r. r \<in> set (products st) \<Longrightarrow> row_id r \<noteq> i"
    using new_rowid_fresh(2) [OF i] by fastforce
  have "filter (\<lambda>r. row_id r = i) (products st) = []"
    using fresh by (simp add: filter_empty_conv)
  then have sel: "select_record i st' = Inr \<lparr>row_id = i, data = stored d\<rparr>"
    by (simp add: select_record_def fetch_records_select_all st')
  show "\<exists>i. new_rowid st = Inr i \<and> i \<notin> row_id ` set (products st) \<and>
           products st' = products st @ [\<lparr>row_id = i, data = stored d\<rparr>] \<and>
           select_record i st' = Inr \<lparr>row_id = i, data = stored d\<rparr> \<and>
           data (projr (select_record i st')) = stored d"
    using i fresh sel by (intro exI [of _ i]) (auto simp: st')
next
  show "map (\<lambda>field. field (stored d))
     [sno, date_of_intervention, yard_location, batchno, hold_no, material, lots_id,
      sgs_reference_id, dry_colour, wet_colour, asbestos, truck_no, remarks, vessel_name,
      sgs_report_id] =
   map (\<lambda>field. field d)
     [sno, date_of_intervention, yard_location, batchno, hold_no, material, lots_id,
      sgs_reference_id, dry_colour, wet_colour, asbestos, truck_no, remarks, vessel_name,
      sgs_report_id]"
    by (simp add: stored_def map_fields_sel)
next
  show "map (\<lambda>field. field (stored d)) [planned_qty, loaded_qty, balance_qty, loi, mgo, sio2] =
   map (\<lambda>field. real_affinity (field d)) [planned_qty, loaded_qty, balance_qty, loi, mgo, sio2]"
    by (simp add: stored_def map_fields_sel)
next
  fix x show "real_affinity x =
      (if x = NaN then None else if x = NegZero then Some (Float 0) else Some x)"
    by (rule real_affinity_cases)
next
  assume "list_all (\<lambda>x. x \<noteq> NaN \<and> x \<noteq> NegZero)
      [planned_qty d, loaded_qty d, balance_qty d, loi d, mgo d, sio2 d]"
  then show "stored d = as_given d" by (rule stored_exact)
qed

text \<open>
  The first shipment, inserted into the new database, gets identifier 1 and is read
  back with the quantities 20 and 10 it was given.
\<close>

theorem add_record_round_trip_witness:
  "add_record form_A init_db = Inr store1 \<and> new_rowid (init_db :: pyfloat option db) = Inr 1 \<and>
   select_record 1 store1 = Inr \<lparr>row_id = 1, data = stored form_A\<rparr> \<and>
   list_all (\<lambda>x. x \<noteq> NaN \<and> x \<noteq> NegZero)
     [planned_qty form_A, loaded_qty form_A, balance_qty form_A, loi form_A, mgo form_A,
      sio2 form_A] \<and>
   stored form_A = as_given form_A \<and>
   planned_qty (stored form_A) = Some (Float 20) \<and> loaded_qty (stored form_A) = Some (Float 10)"
proof -
  have a: "add_record form_A init_db = Inr store1"
    by (simp add: add_record_init_db store1_def)
  have e: "list_all (\<lambda>x. x \<noteq> NaN \<and> x \<noteq> NegZero)
     [planned_qty form_A, loaded_qty form_A, balance_qty form_A, loi form_A, mgo form_A,
      sio2 form_A]"
    by (simp add: form_A_def map_fields_sel)
  have q: "planned_qty form_A = Float 20" "loaded_qty form_A = Float 10"
    by (simp_all add: form_A_def map_fields_sel rec_A_def shipment_def)
  from add_record_round_trip [of init_db form_A store1] a e q
    new_rowid_init_db [where ?'a = "pyfloat option"]
  show ?thesis by (auto simp: real_affinity_def)
qed

text \<open>
  C4. For an identifier (a 64-bit integer) that no row of the table has, \<open>update_record\<close>
  and \<open>delete_record\<close> return normally and leave the database as it was; in particular
  the number of records is the same before and after.
\<close>

theorem update_delete_absent_noop:
  assumes "is_int64 i" and "i \<notin> row_id ` set (products st)"
  shows "update_record i d st = Inr st \<and> delete_record i st = Inr st \<and>
         length (products (after (Update i d) st)) = length (products st) \<and>
         length (products (after (Delete i) st)) = length (products st)"
  using assms
  by (simp add: update_record_def delete_record_def after_def map_update_absent
      filter_delete_absent)

theorem update_delete_absent_noop_witness:
  "is_int64 5 \<and> 5 \<notin> row_id ` set (products store1) \<and>
   update_record 5 form_B store1 = Inr store1 \<and> delete_record 5 store1 = Inr store1"
proof -
  have a: "is_int64 5" by (simp add: is_int64_def MAX_ROWID_def)
  have b: "5 \<notin> row_id ` set (products store1)" by (simp add: store1_def)
  from update_delete_absent_noop [OF a b, of form_B] a b show ?thesis by simp
qed

text \<open>
  C6, as the specification states it, fails on the code: after the record with
  identifier 1 is updated with the floats \<open>-0.0\<close> and NaN and the record with
  identifier 2 is deleted, record 1 is read back with \<open>0.0\<close> and \<open>NULL\<close> in their
  place, not with the values of the update.
\<close>

theorem update_then_delete_other_counterexample:
  "update_record 1 form_nan store2 =
     Inr \<lparr>products = [\<lparr>row_id = 1, data = stored form_nan\<rparr>,
                       \<lparr>row_id = 2, data = stored form_B\<rparr>], seq = 2\<rparr> \<and>
   delete_record 2 \<lparr>products = [\<lparr>row_id = 1, data = stored form_nan\<rparr>,
                                 \<lparr>row_id = 2, data = stored form_B\<rparr>], seq = 2\<rparr> =
     Inr \<lparr>products = [\<lparr>row_id = 1, data = stored form_nan\<rparr>], seq = 2\<rparr> \<and>
   select_record 1 \<lparr>products = [\<lparr>row_id = 1, data = stored form_nan\<rparr>], seq = 2\<rparr> =
     Inr \<lparr>row_id = 1, data = stored form_nan\<rparr> \<and>
   planned_qty form_nan = NegZero \<and> planned_qty (stored form_nan) = Some (Float 0) \<and>
   loaded_qty form_nan = NaN \<and> loaded_qty (stored form_nan) = None \<and>
   stored form_nan \<noteq> as_given form_nan"
  by (simp add: update_record_def delete_record_def store2_def is_int64_def MAX_ROWID_def
      select_record_single form_nan_fields stored_form_nan stored_form_nan_differs)

text \<open>
  C6, amended. In a database that holds a record with identifier \<open>I\<close>,
  \<open>update_record I d\<close> succeeds, and after a following \<open>delete_record J\<close> with
  \<open>J \<noteq> I\<close> (which succeeds for every 64-bit \<open>J\<close>) the table holds exactly one row with
  identifier \<open>I\<close>; it is read back and carries the updated data as stored: the text
  fields of \<open>d\<close> exactly, and each numeric field of \<open>d\<close> as the \<open>REAL\<close> column stores it
  (\<open>NULL\<close> for NaN, \<open>0.0\<close> for \<open>-0.0\<close>, the float itself otherwise), so exactly the
  updated values when \<open>d\<close> has neither NaN nor \<open>-0.0\<close>. The delete changes nothing of
  the row.
\<close>

theorem update_then_delete_other:
  assumes "wf_db st" and "I \<in> row_id ` set (products st)" and "J \<noteq> I"
  shows "\<exists>st1. update_record I d st = Inr st1 \<and>
           (is_int64 J \<longrightarrow> (\<exists>st2. delete_record J st1 = Inr st2)) \<and>
           filter (\<lambda>r. row_id r = I) (products st1) = [\<lparr>row_id = I, data = stored d\<rparr>] \<and>
           filter (\<lambda>r. row_id r = I) (products (after (Delete J) st1)) =
             [\<lparr>row_id = I, data = stored d\<rparr>] \<and>
           select_record I (after (Delete J) st1) = Inr \<lparr>row_id = I, data = stored d\<rparr> \<and>
           (list_all (\<lambda>x. x \<noteq> NaN \<and> x \<noteq> NegZero)
              [planned_qty d, loaded_qty d, balance_qty d, loi d, mgo d, sio2 d]
            \<longrightarrow> select_record I (after (Delete J) st1) = Inr \<lparr>row_id = I, data = as_given d\<rparr>)"
proof -
  from assms(1,2) have I: "is_int64 I" and dist: "distinct (map row_id (products st))"
    by (auto simp: wf_db_def list_all_iff)
  define st1 where "st1 = st\<lparr>products :=
      map (\<lambda>r. if row_id r = I then r\<lparr>data := stored d\<rparr> else r) (products st)\<rparr>"
  have u: "update_record I d st = Inr st1"
    using I by (simp add: update_record_def st1_def)
  have f1: "filter (\<lambda>r. row_id r = I) (products st1) = [\<lparr>row_id = I, data = stored d\<rparr>]"
    by (simp add: st1_def filter_key_update [OF dist assms(2)])
  have "filter (\<lambda>r. row_id r = I) (filter (\<lambda>r. row_id r \<noteq> J) (products st1))
          = filter (\<lambda>r. row_id r = I) (products st1)"
    using assms(3) by (auto intro: filter_cong)
  with f1 have f2: "filter (\<lambda>r. row_id r = I) (products (after (Delete J) st1))
          = [\<lparr>row_id = I, data = stored d\<rparr>]"
    by (simp add: after_def delete_record_def)
  then have s: "select_record I (after (Delete J) st1) = Inr \<lparr>row_id = I, data = stored d\<rparr>"
    by (simp add: select_record_def fetch_records_select_all)
  have e: "select_record I (after (Delete J) st1) = Inr \<lparr>row_id = I, data = as_given d\<rparr>"
    if "list_all (\<lambda>x. x \<noteq> NaN \<and> x \<noteq> NegZero)
              [planned_qty d, loaded_qty d, balance_qty d, loi d, mgo d, sio2 d]"
    using s stored_exact [OF that] by simp
  have del: "is_int64 J \<longrightarrow> (\<exists>st2. delete_record J st1 = Inr st2)"
    by (simp add: delete_record_def)
  from u del f1 f2 s e show ?thesis
    by blast
qed

text \<open>
  Record 1 of two is updated with the third shipment and record 2 is deleted: record 1
  is read back with the third shipment's values.
\<close>

theorem update_then_delete_other_witness:
  "wf_db store2 \<and> 1 \<in> row_id ` set (products store2) \<and>
   list_all (\<lambda>x. x \<noteq> NaN \<and> x \<noteq> NegZero)
     [planned_qty form_C, loaded_qty form_C, balance_qty form_C, loi form_C, mgo form_C,
      sio2 form_C] \<and>
   (\<exists>st1. update_record 1 form_C store2 = Inr st1 \<and>
          (\<exists>st2. delete_record 2 st1 = Inr st2) \<and>
          select_record 1 (after (Delete 2) st1) = Inr \<lparr>row_id = 1, data = stored form_C\<rparr> \<and>
          select_record 1 (after (Delete 2) st1) = Inr \<lparr>row_id = 1, data = as_given form_C\<rparr>)"
proof -
  have a: "1 \<in> row_id ` set (products store2)" by (simp add: store2_def)
  have b: "(2::int) \<noteq> 1" by simp
  have c: "is_int64 2" by (simp add: is_int64_def MAX_ROWID_def)
  have e: "list_all (\<lambda>x. x \<noteq> NaN \<and> x \<noteq> NegZero)
     [planned_qty form_C, loaded_qty form_C, balance_qty form_C, loi form_C, mgo form_C,
      sio2 form_C]"
    by (simp add: form_C_def map_fields_sel)
  from update_then_delete_other [OF wf_store2 a b, of form_C] c wf_store2 a e show ?thesis
    by blast
qed



section \<open>Properties of the keyword search\<close>

lemma read_percent [simp]: "sqlite3Utf8Read c = percent \<longleftrightarrow> c = percent"
  by (auto simp: sqlite3Utf8Read_def percent_def)

lemma read_underscore [simp]: "sqlite3Utf8Read c = underscore \<longleftrightarrow> c = underscore"
  by (auto simp: sqlite3Utf8Read_def underscore_def)

lemma char_match_tolower:
  "(sqlite3Utf8Read c = sqlite3Utf8Read c2 \<or>
    (tolower (sqlite3Utf8Read c) = tolower (sqlite3Utf8Read c2) \<and>
     sqlite3Utf8Read c < 128 \<and> sqlite3Utf8Read c2 < 128))
   \<longleftrightarrow> like_fold c = like_fold c2"
  unfolding like_fold_def by (auto simp: tolower_def split: if_splits)

lemma patternCompare_percent_all: "patternCompare [percent] s"
  by (induction s) simp_all

lemma patternCompare_percent:
  "patternCompare (percent # p) s \<longleftrightarrow> (\<exists>u v. s = u @ v \<and> patternCompare p v)"
proof (induction s)
  case Nil
  show ?case by simp
next
  case (Cons c2 t)
  have "(\<exists>u v. c2 # t = u @ v \<and> patternCompare p v)
      \<longleftrightarrow> patternCompare p (c2 # t) \<or> (\<exists>u v. t = u @ v \<and> patternCompare p v)"
    by (auto simp: Cons_eq_append_conv)
  with Cons show ?case by simp
qed

lemma patternCompare_literal:
  assumes "percent \<notin> set p" and "underscore \<notin> set p"
  shows "patternCompare (p @ q) s \<longleftrightarrow>
           (\<exists>v w. s = v @ w \<and> map like_fold v = map like_fold p \<and> patternCompare q w)"
  using assms
proof (induction p arbitrary: s)
  case Nil
  show ?case by simp
next
  case (Cons c p)
  then have c: "c \<noteq> percent" "c \<noteq> underscore"
    and p: "percent \<notin> set p" "underscore \<notin> set p"
    by auto
  show ?case
  proof (cases s)
    case Nil
    with c show ?thesis by simp
  next
    case (Cons c2 t)
    have "patternCompare ((c # p) @ q) s \<longleftrightarrow>
        like_fold c = like_fold c2 \<and> patternCompare (p @ q) t"
      using c by (simp add: Cons char_match_tolower)
    also have "\<dots> \<longleftrightarrow> like_fold c = like_fold c2 \<and>
        (\<exists>v w. t = v @ w \<and> map like_fold v = map like_fold p \<and> patternCompare q w)"
      by (simp only: Cons.IH [OF p])
    also have "\<dots> \<longleftrightarrow>
        (\<exists>v w. s = v @ w \<and> map like_fold v = map like_fold (c # p) \<and> patternCompare q w)"
    proof
      assume "like_fold c = like_fold c2 \<and>
        (\<exists>v w. t = v @ w \<and> map like_fold v = map like_fold p \<and> patternCompare q w)"
      then obtain v w where "like_fold c = like_fold c2" "t = v @ w"
        "map like_fold v = map like_fold p" "patternCompare q w" by blast
      then have "s = (c2 # v) @ w \<and> map like_fold (c2 # v) = map like_fold (c # p) \<and> patternCompare q w"
        by (simp add: Cons)
      then show "\<exists>v w. s = v @ w \<and> map like_fold v = map like_fold (c # p) \<and> patternCompare q w"
        by blast
    next
      assume "\<exists>v w. s = v @ w \<and> map like_fold v = map like_fold (c # p) \<and> patternCompare q w"
      then obtain v w where s: "s = v @ w" and m: "map like_fold v = map like_fold (c # p)"
        and q: "patternCompare q w" by blast
      from m obtain x v' where v: "v = x # v'" by (cases v) auto
      with s m Cons have "like_fold c = like_fold c2" "t = v' @ w" "map like_fold v' = map like_fold p"
        by auto
      with q show "like_fold c = like_fold c2 \<and>
        (\<exists>v w. t = v @ w \<and> map like_fold v = map like_fold p \<and> patternCompare q w)"
        by blast
    qed
    finally show ?thesis .
  qed
qed

lemma sublist_map_iff:
  "sublist (map f xs) (map f s) \<longleftrightarrow> (\<exists>u v w. s = u @ v @ w \<and> map f v = map f xs)"
proof
  assume "sublist (map f xs) (map f s)"
  then obtain ps ss where "map f s = ps @ map f xs @ ss"
    unfolding sublist_def by blast
  from this [THEN map_eq_append_conv [THEN iffD1]]
  obtain u r where s: "s = u @ r" and r: "map f xs @ ss = map f r"
    by blast
  from r [THEN append_eq_map_conv [THEN iffD1]]
  obtain v w where "r = v @ w" "map f xs = map f v"
    by blast
  with s have "s = u @ v @ w \<and> map f v = map f xs" by simp
  then show "\<exists>u v w. s = u @ v @ w \<and> map f v = map f xs" by blast
next
  assume "\<exists>u v w. s = u @ v @ w \<and> map f v = map f xs"
  then obtain u v w where "s = u @ v @ w" "map f v = map f xs" by blast
  then have "map f s = map f u @ map f xs @ map f w" by simp
  then show "sublist (map f xs) (map f s)" unfolding sublist_def by blast
qed

lemma patternCompare_keyword:
  assumes "percent \<notin> set kw" and "underscore \<notin> set kw"
  shows "patternCompare (percent # kw @ [percent]) s \<longleftrightarrow>
           sublist (map like_fold kw) (map like_fold s)"
proof -
  have "patternCompare (percent # kw @ [percent]) s \<longleftrightarrow>
      (\<exists>u r. s = u @ r \<and> patternCompare (kw @ [percent]) r)"
    by (rule patternCompare_percent)
  also have "\<dots> \<longleftrightarrow> (\<exists>u r. s = u @ r \<and>
      (\<exists>v w. r = v @ w \<and> map like_fold v = map like_fold kw \<and> patternCompare [percent] w))"
    by (simp only: patternCompare_literal [OF assms])
  also have "\<dots> \<longleftrightarrow> (\<exists>u v w. s = u @ v @ w \<and> map like_fold v = map like_fold kw)"
    by (auto simp: patternCompare_percent_all)
  also have "\<dots> \<longleftrightarrow> sublist (map like_fold kw) (map like_fold s)"
    by (simp only: sublist_map_iff)
  finally show ?thesis .
qed

lemma cstr_pattern:
  "0 \<notin> set kw \<Longrightarrow> cstr (percent # kw @ [percent]) = percent # kw @ [percent]"
  unfolding cstr_def by (auto simp: percent_def takeWhile_eq_all_conv intro: gr0I)

lemma value_bytes_pattern: "value_bytes (percent # kw @ [percent]) = value_bytes kw + 2"
  by (simp add: value_bytes_def utf8_len_def percent_def)

lemma cstr_empty_pattern: "cstr [percent, percent] = [percent, percent]"
  by (simp add: cstr_def percent_def)

lemma patternCompare_percent_percent: "patternCompare [percent, percent] s"
  unfolding patternCompare_percent [of "[percent]"]
  using patternCompare_percent_all by blast

lemma likeFunc_within_limit:
  "value_bytes pat \<le> SQLITE_MAX_LIKE_PATTERN_LENGTH \<Longrightarrow>
     likeFunc pat f = Inr (if f = None then None else Some (like_true pat f))"
  by (cases f) (simp_all add: likeFunc_def like_true_def)

lemma likeFunc_over_limit:
  "SQLITE_MAX_LIKE_PATTERN_LENGTH < value_bytes pat \<Longrightarrow> likeFunc pat f = Inl LikePatternTooComplex"
  by (simp add: likeFunc_def)

lemma like_true_None: "like_true pat None = False"
  by (simp add: like_true_def)

lemma sql_or_Inr:
  "sql_or (Inr x) (Inr y) =
     Inr (if x = Some True \<or> y = Some True then Some True
          else if x = None \<or> y = None then None else Some False)"
  by (simp add: sql_or_def)

lemma search_query_within_limit:
  assumes "value_bytes keyword + 2 \<le> SQLITE_MAX_LIKE_PATTERN_LENGTH"
  shows "\<exists>b. search_query keyword r = Inr b \<and>
           (b = Some True \<longleftrightarrow>
              like_true (percent # keyword @ [percent]) (batchno (data r)) \<or>
              like_true (percent # keyword @ [percent]) (material (data r)) \<or>
              like_true (percent # keyword @ [percent]) (vessel_name (data r)))"
proof -
  have "value_bytes (percent # keyword @ [percent]) \<le> SQLITE_MAX_LIKE_PATTERN_LENGTH"
    using assms by (simp only: value_bytes_pattern)
  note l = likeFunc_within_limit [OF this]
  show ?thesis
    unfolding search_query_def Let_def l sql_or_Inr
    by (auto simp: like_true_None)
qed

lemma search_query_over_limit:
  assumes "SQLITE_MAX_LIKE_PATTERN_LENGTH < value_bytes keyword + 2"
  shows "search_query keyword r = Inl LikePatternTooComplex"
proof -
  have "SQLITE_MAX_LIKE_PATTERN_LENGTH < value_bytes (percent # keyword @ [percent])"
    using assms by (simp only: value_bytes_pattern)
  note l = likeFunc_over_limit [OF this]
  show ?thesis
    unfolding search_query_def Let_def l by (simp add: sql_or_def)
qed

lemma select_rows_filter:
  assumes "\<And>r. r \<in> set rs \<Longrightarrow> \<exists>b. w r = Inr b \<and> (b = Some True \<longleftrightarrow> P r)"
  shows "select_rows w rs = Inr (filter P rs)"
  using assms
proof (induction rs)
  case Nil
  show ?case by simp
next
  case (Cons a as)
  from Cons.prems [of a] obtain b where b: "w a = Inr b" "b = Some True \<longleftrightarrow> P a"
    by auto
  have "select_rows w as = Inr (filter P as)"
    by (rule Cons.IH) (simp add: Cons.prems)
  with b show ?case by simp
qed

lemma select_rows_error:
  "rs \<noteq> [] \<Longrightarrow> w (hd rs) = Inl e \<Longrightarrow> select_rows w rs = Inl e"
  by (cases rs) simp_all

lemma like_true_keyword:
  assumes "percent \<notin> set kw" and "underscore \<notin> set kw" and "0 \<notin> set kw"
  shows "like_true (percent # kw @ [percent]) f =
           (case f of None \<Rightarrow> False | Some s \<Rightarrow> sublist (map like_fold kw) (map like_fold (cstr s)))"
  by (cases f)
     (simp_all add: like_true_def cstr_pattern [OF assms(3)] patternCompare_keyword [OF assms(1,2)])

lemma like_true_empty: "like_true [percent, percent] f \<longleftrightarrow> f \<noteq> None"
  by (cases f) (simp_all add: like_true_def cstr_empty_pattern patternCompare_percent_percent)

lemma value_bytes_replicate: "value_bytes (replicate n 97) = n"
  by (induction n) (simp_all add: value_bytes_def utf8_len_def)

lemma show_search_filter_over_limit:
  assumes "SQLITE_MAX_LIKE_PATTERN_LENGTH < value_bytes kw + 2" and "products st \<noteq> []"
  shows "show_search_filter kw st = Inl LikePatternTooComplex"
  unfolding show_search_filter_def fetch_records_def
  by (rule select_rows_error [OF assms(2) search_query_over_limit [OF assms(1)]])

lemma rec_A_fields:
  "batchno rec_A = Some [65, 66, 67]" "material rec_A = Some [88]"
  "vessel_name rec_A = Some [77, 86, 32, 83, 116, 97, 114]"
  by (simp_all add: rec_A_def shipment_def ustr_def)

lemma rec_N_fields:
  "batchno rec_N = None" "material rec_N = Some [88]" "vessel_name rec_N = None"
  by (simp_all add: rec_N_def rec_B_def shipment_def ustr_def)

lemma rec_Z_fields:
  "batchno rec_Z = Some [97, 98, 0, 99, 100]" "material rec_Z = Some [88]"
  "vessel_name rec_Z = Some [77, 86, 32, 83, 116, 97, 114]"
  by (simp_all add: rec_Z_def rec_B_def shipment_def ustr_def)

lemma bytes_small:
  "value_bytes [97, 98, 99] + 2 \<le> SQLITE_MAX_LIKE_PATTERN_LENGTH"
  "value_bytes [97, 95, 99] + 2 \<le> SQLITE_MAX_LIKE_PATTERN_LENGTH"
  "value_bytes [65, 37, 67] + 2 \<le> SQLITE_MAX_LIKE_PATTERN_LENGTH"
  by (simp_all add: value_bytes_def utf8_len_def SQLITE_MAX_LIKE_PATTERN_LENGTH_def)

lemma like_abc_ABC: "like_true [percent, 97, 98, 99, percent] (Some [65, 66, 67])"
  by (simp add: like_true_def cstr_def percent_def underscore_def tolower_def
      sqlite3Utf8Read_def)

lemma like_a_c_ABC: "like_true [percent, 97, 95, 99, percent] (Some [65, 66, 67])"
  by (simp add: like_true_def cstr_def percent_def underscore_def tolower_def
      sqlite3Utf8Read_def)

lemma like_ApC_ABC: "like_true [percent, 65, 37, 67, percent] (Some [65, 66, 67])"
  by (simp add: like_true_def cstr_def percent_def underscore_def tolower_def
      sqlite3Utf8Read_def)

lemma search_abc_db1:
  "show_search_filter (ustr ''abc'') db1 = Inr [\<lparr>row_id = 1, data = rec_A\<rparr>]"
proof -
  have k: "ustr ''abc'' = [97, 98, 99]" by (simp add: ustr_def)
  show ?thesis
    unfolding show_search_filter_def fetch_records_def k
    by (subst select_rows_filter [OF search_query_within_limit [OF bytes_small(1)]])
       (simp add: db1_def rec_A_fields like_abc_ABC)
qed

lemma spec_abc_db1: "search_spec (ustr ''abc'') db1 = []"
  by (simp add: search_spec_def db1_def rec_A_fields contains_keyword_def ustr_def sublist_code)

lemma search_long_db1:
  "show_search_filter (replicate 49999 97) db1 = Inl LikePatternTooComplex"
  by (rule show_search_filter_over_limit)
     (simp_all add: value_bytes_replicate SQLITE_MAX_LIKE_PATTERN_LENGTH_def db1_def)

lemma search_cd_db_nul:
  "show_search_filter (ustr ''cd'') db_nul = Inr [] \<and>
   search_spec (ustr ''cd'') db_nul = [\<lparr>row_id = 1, data = rec_Z\<rparr>]"
proof -
  have k: "ustr ''cd'' = [99, 100]" by (simp add: ustr_def)
  have b: "value_bytes [99, 100] + 2 \<le> SQLITE_MAX_LIKE_PATTERN_LENGTH"
    by (simp add: value_bytes_def utf8_len_def SQLITE_MAX_LIKE_PATTERN_LENGTH_def)
  have 1: "show_search_filter (ustr ''cd'') db_nul = Inr []"
    unfolding show_search_filter_def fetch_records_def k
    by (subst select_rows_filter [OF search_query_within_limit [OF b]])
       (simp add: db_nul_def rec_Z_fields like_true_def cstr_def percent_def underscore_def
          tolower_def sqlite3Utf8Read_def)
  have 2: "search_spec (ustr ''cd'') db_nul = [\<lparr>row_id = 1, data = rec_Z\<rparr>]"
    by (simp add: search_spec_def db_nul_def rec_Z_fields contains_keyword_def k sublist_code)
  from 1 2 show ?thesis ..
qed

lemma rec_F_fields:
  "batchno rec_F = Some [65535]" "material rec_F = Some [88]"
  "vessel_name rec_F = Some [77, 86, 32, 83, 116, 97, 114]"
  by (simp_all add: rec_F_def rec_B_def shipment_def ustr_def)

lemma search_fffe_db_ffff:
  "show_search_filter [65534] db_ffff = Inr [\<lparr>row_id = 1, data = rec_F\<rparr>] \<and>
   search_spec [65534] db_ffff = []"
proof -
  have b: "value_bytes [65534] + 2 \<le> SQLITE_MAX_LIKE_PATTERN_LENGTH"
    by (simp add: value_bytes_def utf8_len_def SQLITE_MAX_LIKE_PATTERN_LENGTH_def)
  have 1: "show_search_filter [65534] db_ffff = Inr [\<lparr>row_id = 1, data = rec_F\<rparr>]"
    unfolding show_search_filter_def fetch_records_def
    by (subst select_rows_filter [OF search_query_within_limit [OF b]])
       (simp add: db_ffff_def rec_F_fields like_true_def cstr_def percent_def underscore_def
          tolower_def sqlite3Utf8Read_def)
  have 2: "search_spec [65534] db_ffff = []"
    by (simp add: search_spec_def db_ffff_def rec_F_fields contains_keyword_def sublist_code)
  from 1 2 show ?thesis ..
qed

text \<open>
  C1, as the specification states it, fails on the code. The keyword \<open>abc\<close> finds the
  record whose batch number is \<open>ABC\<close>, which contains \<open>abc\<close> in none of its three
  fields; the empty keyword finds a record whose batch number and vessel name are
  \<open>NULL\<close>; the keyword \<open>cd\<close> does not find the batch number \<open>ab\<close>, NUL, \<open>cd\<close>; a
  keyword of 49999 characters makes the query raise on a non-empty table; and the
  keyword U+FFFE finds the batch number U+FFFF.
\<close>

theorem search_case_sensitive_counterexample:
  "show_search_filter (ustr ''abc'') db1 = Inr [\<lparr>row_id = 1, data = rec_A\<rparr>] \<and>
   search_spec (ustr ''abc'') db1 = [] \<and>
   show_search_filter [] db_null = Inr [\<lparr>row_id = 1, data = rec_N\<rparr>] \<and>
   searched_fields_non_null db_null = [] \<and>
   show_search_filter (ustr ''cd'') db_nul = Inr [] \<and>
   search_spec (ustr ''cd'') db_nul = [\<lparr>row_id = 1, data = rec_Z\<rparr>] \<and>
   show_search_filter (replicate 49999 97) db1 = Inl LikePatternTooComplex \<and>
   show_search_filter [65534] db_ffff = Inr [\<lparr>row_id = 1, data = rec_F\<rparr>] \<and>
   search_spec [65534] db_ffff = []"
proof -
  have "value_bytes [] + 2 \<le> SQLITE_MAX_LIKE_PATTERN_LENGTH"
    by (simp add: value_bytes_def SQLITE_MAX_LIKE_PATTERN_LENGTH_def)
  note q = select_rows_filter [OF search_query_within_limit [OF this]]
  have "show_search_filter [] db_null = Inr [\<lparr>row_id = 1, data = rec_N\<rparr>]"
    unfolding show_search_filter_def fetch_records_def
    by (subst q) (simp add: db_null_def rec_N_fields like_true_empty)
  moreover have "searched_fields_non_null db_null = []"
    by (simp add: searched_fields_non_null_def db_null_def rec_N_fields)
  ultimately show ?thesis
    using search_abc_db1 spec_abc_db1 search_cd_db_nul search_long_db1 search_fffe_db_ffff
    by simp
qed

text \<open>
  C1, amended. For a keyword of at most 49998 bytes (UTF-8), the search returns exactly
  the records in which the batch number, the material or the vessel name is not
  \<open>NULL\<close> and matches the \<open>LIKE\<close> pattern \<open>%keyword%\<close>, in table order. For a keyword
  without \<open>%\<close>, \<open>_\<close> and NUL, a field matches exactly when it is not \<open>NULL\<close> and, read
  up to its first NUL, contains the keyword as a substring, where characters are compared
  as SQLite reads them (U+FFFE and U+FFFF as U+FFFD) and without regard to the case of
  ASCII letters. The empty keyword returns exactly the records in which at least one of
  the three fields is not \<open>NULL\<close>.
\<close>

theorem show_search_filter_like:
  "(value_bytes kw + 2 \<le> SQLITE_MAX_LIKE_PATTERN_LENGTH \<longrightarrow>
      show_search_filter kw st =
        Inr (filter (\<lambda>r. like_true (percent # kw @ [percent]) (batchno (data r)) \<or>
                         like_true (percent # kw @ [percent]) (material (data r)) \<or>
                         like_true (percent # kw @ [percent]) (vessel_name (data r)))
               (products st))) \<and>
   (percent \<notin> set kw \<and> underscore \<notin> set kw \<and> 0 \<notin> set kw \<longrightarrow>
      like_true (percent # kw @ [percent]) f =
        (case f of None \<Rightarrow> False
         | Some s \<Rightarrow> sublist (map like_fold kw) (map like_fold (cstr s)))) \<and>
   show_search_filter [] st =
     Inr (filter (\<lambda>r. batchno (data r) \<noteq> None \<or> material (data r) \<noteq> None \<or>
                      vessel_name (data r) \<noteq> None) (products st))"
proof (intro conjI impI)
  assume "value_bytes kw + 2 \<le> SQLITE_MAX_LIKE_PATTERN_LENGTH"
  then show "show_search_filter kw st =
        Inr (filter (\<lambda>r. like_true (percent # kw @ [percent]) (batchno (data r)) \<or>
                         like_true (percent # kw @ [percent]) (material (data r)) \<or>
                         like_true (percent # kw @ [percent]) (vessel_name (data r)))
               (products st))"
    unfolding show_search_filter_def fetch_records_def
    by (intro select_rows_filter search_query_within_limit)
next
  assume "percent \<notin> set kw \<and> underscore \<notin> set kw \<and> 0 \<notin> set kw"
  then show "like_true (percent # kw @ [percent]) f =
        (case f of None \<Rightarrow> False
         | Some s \<Rightarrow> sublist (map like_fold kw) (map like_fold (cstr s)))"
    by (intro like_true_keyword) simp_all
next
  have "value_bytes [] + 2 \<le> SQLITE_MAX_LIKE_PATTERN_LENGTH"
    by (simp add: value_bytes_def SQLITE_MAX_LIKE_PATTERN_LENGTH_def)
  from search_query_within_limit [OF this]
  have "\<And>r. \<exists>b. search_query [] r = Inr b \<and>
      (b = Some True \<longleftrightarrow> batchno (data r) \<noteq> None \<or> material (data r) \<noteq> None \<or>
                      vessel_name (data r) \<noteq> None)"
    by (simp add: like_true_empty)
  then show "show_search_filter [] st =
     Inr (filter (\<lambda>r. batchno (data r) \<noteq> None \<or> material (data r) \<noteq> None \<or>
                      vessel_name (data r) \<noteq> None) (products st))"
    unfolding show_search_filter_def fetch_records_def
    by (intro select_rows_filter)
qed

theorem show_search_filter_like_witness:
  "value_bytes (ustr ''abc'') + 2 \<le> SQLITE_MAX_LIKE_PATTERN_LENGTH \<and>
   percent \<notin> set (ustr ''abc'') \<and> underscore \<notin> set (ustr ''abc'') \<and> 0 \<notin> set (ustr ''abc'') \<and>
   show_search_filter (ustr ''abc'') db1 = Inr [\<lparr>row_id = 1, data = rec_A\<rparr>] \<and>
   like_true (percent # ustr ''abc'' @ [percent]) (Some (ustr ''ABC'')) \<and>
   sublist (map like_fold (ustr ''abc'')) (map like_fold (cstr (ustr ''ABC''))) \<and>
   show_search_filter [] db1 = Inr [\<lparr>row_id = 1, data = rec_A\<rparr>]"
proof -
  have k: "ustr ''abc'' = [97, 98, 99]" "ustr ''ABC'' = [65, 66, 67]"
    by (simp_all add: ustr_def)
  have m: "percent \<notin> set (ustr ''abc'') \<and> underscore \<notin> set (ustr ''abc'') \<and> 0 \<notin> set (ustr ''abc'')"
    by (simp add: k percent_def underscore_def)
  have l: "like_true (percent # ustr ''abc'' @ [percent]) (batchno (data \<lparr>row_id = 1, data = rec_A\<rparr>))"
    using like_abc_ABC by (simp add: k rec_A_fields)
  have n: "batchno (data \<lparr>row_id = 1, data = rec_A\<rparr>) \<noteq> None"
    by (simp add: rec_A_fields)
  from show_search_filter_like [of "ustr ''abc''" db1 "Some (ustr ''ABC'')"] m l n bytes_small(1)
  show ?thesis
    by (simp add: k db1_def rec_A_fields)
qed

text \<open>
  C9. \<open>%\<close> and \<open>_\<close> in the keyword are wildcards of the pattern: \<open>_\<close> matches any
  one character and \<open>%\<close> any text. So the keywords \<open>a_c\<close> and \<open>A%C\<close> both return the
  record whose batch number is \<open>ABC\<close>, although none of its three searched fields
  contains either keyword as a substring.
\<close>

theorem like_wildcards:
  "(\<forall>c. patternCompare [underscore] [c]) \<and> (\<forall>s. patternCompare [percent] s) \<and>
   underscore \<in> set (ustr ''a_c'') \<and>
   show_search_filter (ustr ''a_c'') db1 = Inr [\<lparr>row_id = 1, data = rec_A\<rparr>] \<and>
   search_spec (ustr ''a_c'') db1 = [] \<and>
   percent \<in> set (ustr ''A%C'') \<and>
   show_search_filter (ustr ''A%C'') db1 = Inr [\<lparr>row_id = 1, data = rec_A\<rparr>] \<and>
   search_spec (ustr ''A%C'') db1 = []"
proof -
  have k: "ustr ''a_c'' = [97, 95, 99]" "ustr ''A%C'' = [65, 37, 67]"
    by (simp_all add: ustr_def)
  have 1: "show_search_filter (ustr ''a_c'') db1 = Inr [\<lparr>row_id = 1, data = rec_A\<rparr>]"
    unfolding show_search_filter_def fetch_records_def k
    by (subst select_rows_filter [OF search_query_within_limit [OF bytes_small(2)]])
       (simp add: db1_def rec_A_fields like_a_c_ABC)
  have 2: "show_search_filter (ustr ''A%C'') db1 = Inr [\<lparr>row_id = 1, data = rec_A\<rparr>]"
    unfolding show_search_filter_def fetch_records_def k
    by (subst select_rows_filter [OF search_query_within_limit [OF bytes_small(3)]])
       (simp add: db1_def rec_A_fields like_ApC_ABC)
  have 3: "search_spec (ustr ''a_c'') db1 = []" "search_spec (ustr ''A%C'') db1 = []"
    by (simp_all add: search_spec_def db1_def rec_A_fields contains_keyword_def k sublist_code)
  have 4: "underscore \<in> set (ustr ''a_c'')" "percent \<in> set (ustr ''A%C'')"
    by (simp_all add: k underscore_def percent_def)
  have 5: "\<forall>c. patternCompare [underscore] [c]"
    by (simp add: underscore_def percent_def sqlite3Utf8Read_def)
  from 1 2 3 4 5 patternCompare_percent_all show ?thesis
    by blast
qed

theorem like_wildcards_witness:
  "patternCompare [underscore] [120] \<and> patternCompare [percent] (ustr ''anything'')"
  using like_wildcards by blast

section \<open>Properties of the report aggregation\<close>

text \<open>
  \<open>show_reports\<close> groups the renamed frame by the labels \<open>Material\<close> and
  \<open>Yard Location\<close> and sums the columns \<open>Loaded Qty (Tons)\<close> and
  \<open>Planned Qty (Tons)\<close>: these are the labels of the four fields used in the model.
\<close>

lemma report_labels:
  "rename_label (ustr ''material'') = ustr ''Material''"
  "rename_label (ustr ''loaded_qty'') = ustr ''Loaded Qty (Tons)''"
  "rename_label (ustr ''yard_location'') = ustr ''Yard Location''"
  "rename_label (ustr ''planned_qty'') = ustr ''Planned Qty (Tons)''"
  by (rule rename_label_key, simp add: rename_map_def)+

lemma set_map_filter_key:
  "set (List.map_filter key df) = {g. \<exists>r \<in> set df. key r = Some g}"
  by (auto simp: List.map_filter_def image_iff) force

lemma groupby_sum_keys:
  "map fst (groupby_sum summ key col df) = sort (remdups (List.map_filter key df))"
  by (simp add: groupby_sum_def comp_def)

lemma groupby_sum_map_of:
  "map_of (groupby_sum summ key col df) g =
     (if \<exists>r \<in> set df. key r = Some g
      then Some (summ (map col (filter (\<lambda>r. key r = Some g) df))) else None)"
proof -
  have "map_of (groupby_sum summ key col df) =
      (Some \<circ> (\<lambda>g. summ (map col (filter (\<lambda>r. key r = Some g) df))))
        |` set (sort (remdups (List.map_filter key df)))"
    unfolding groupby_sum_def by (rule map_of_map_restrict)
  then show ?thesis
    by (simp add: restrict_map_def set_map_filter_key)
qed

lemma rec_groups:
  "material rec_A = Some [88]" "material rec_B = Some [88]" "material rec_C = Some [89]"
  "loaded_qty rec_A = 10" "loaded_qty rec_B = 5" "loaded_qty rec_C = 3"
  by (simp_all add: rec_A_def rec_B_def rec_C_def shipment_def ustr_def)

lemma report_db3:
  "groupby_sum sum_list (\<lambda>r. material (data r)) (\<lambda>r. loaded_qty (data r)) (products db3)
     = [([88], 15), ([89], 3)]"
  by (simp add: groupby_sum_def db3_def rec_groups List.map_filter_def)

text \<open>
  C5. Aggregating a record set by a grouping field and a measure gives one entry per
  distinct value of the grouping field (in sorted order, each value once): a value is a
  key exactly when some record has it, and it is mapped to the sum of the measure over
  the records of that group, in row order. \<open>show_reports\<close> does this with material and
  loaded quantity, or with yard location and planned quantity. The sum of floats is
  the parameter \<open>summ\<close>.
\<close>

theorem groupby_sum_groups:
  "map fst (groupby_sum summ key col df) = sort (remdups (List.map_filter key df)) \<and>
   distinct (map fst (groupby_sum summ key col df)) \<and>
   set (map fst (groupby_sum summ key col df)) = {g. \<exists>r \<in> set df. key r = Some g} \<and>
   (\<forall>g. map_of (groupby_sum summ key col df) g =
      (if \<exists>r \<in> set df. key r = Some g
       then Some (summ (map col (filter (\<lambda>r. key r = Some g) df))) else None)) \<and>
   (products st \<noteq> [] \<longrightarrow>
      show_reports summ Material_vs_Loaded_Qty st =
        Inr (Some (groupby_sum summ (\<lambda>r. material (data r)) (\<lambda>r. loaded_qty (data r))
                     (products st))) \<and>
      show_reports summ Yard_vs_Planned_Qty st =
        Inr (Some (groupby_sum summ (\<lambda>r. yard_location (data r)) (\<lambda>r. planned_qty (data r))
                     (products st))))"
  by (simp add: groupby_sum_keys groupby_sum_map_of set_map_filter_key show_reports_def
      fetch_records_select_all)

text \<open>Records A (X, 10), B (X, 5) and C (Y, 3) give X: 15 and Y: 3, and no other key.\<close>

theorem groupby_sum_groups_witness:
  "products db3 \<noteq> [] \<and>
   show_reports sum_list Material_vs_Loaded_Qty db3 =
     Inr (Some [(ustr ''X'', 15), (ustr ''Y'', 3)]) \<and>
   map_of (groupby_sum sum_list (\<lambda>r. material (data r)) (\<lambda>r. loaded_qty (data r))
     (products db3)) (ustr ''X'') = Some 15 \<and>
   map_of (groupby_sum sum_list (\<lambda>r. material (data r)) (\<lambda>r. loaded_qty (data r))
     (products db3)) (ustr ''Z'') = None"
proof -
  have k: "ustr ''X'' = [88]" "ustr ''Y'' = [89]" "ustr ''Z'' = [90]"
    by (simp_all add: ustr_def)
  have n: "products db3 \<noteq> []" by (simp add: db3_def)
  from groupby_sum_groups [of sum_list "\<lambda>r. material (data r)" "\<lambda>r. loaded_qty (data r)"
      "products db3" db3] n report_db3
  show ?thesis
    by (simp add: k)
qed

end
